theory Spec2Isabelle
  imports Main "HOL-Library.Sublist"
begin

section \<open>JavaScript primitives used by the backup engine\<close>

text \<open>
  \<open>Array.prototype.slice\<close> and \<open>String.prototype.slice\<close>: a negative index counts
  from the end, both indices are clamped to the length, and an absent \<open>end\<close> is the
  length. The result is empty when the start is not before the end.
\<close>

definition js_index :: "nat \<Rightarrow> int \<Rightarrow> nat" where
  "js_index n i = (if i < 0 then nat (max (int n + i) 0) else min (nat i) n)"

definition js_slice :: "'a list \<Rightarrow> int \<Rightarrow> int option \<Rightarrow> 'a list" where
  "js_slice xs start end_opt =
     (let n = length xs;
          k = js_index n start;
          final = (case end_opt of None \<Rightarrow> n | Some e \<Rightarrow> js_index n e)
      in take (final - k) (drop k xs))"

text \<open>\<open>String.prototype.indexOf\<close> for a one-character needle: \<open>-1\<close> when absent.\<close>

fun indexOf :: "string \<Rightarrow> char \<Rightarrow> int" where
  "indexOf [] c = -1"
| "indexOf (x # xs) c =
     (if x = c then 0 else (let i = indexOf xs c in if i < 0 then -1 else i + 1))"

section \<open>Retention selector\<close>

text \<open>
  \<open>getOldEntries\<close>: the optional \<open>entries\<close> argument is an \<open>option\<close>; \<open>--retention\<close>
  decrements before the comparison.
\<close>

definition getOldEntries :: "int \<Rightarrow> 'a list option \<Rightarrow> 'a list" where
  "getOldEntries retention entries =
     (case entries of
        None \<Rightarrow> []
      | Some es \<Rightarrow>
          (let r = retention - 1
           in if r > 0 then js_slice es 0 (Some (- r)) else es))"

section \<open>Settings resolver\<close>

datatype ReportWhen = Always | Failure | Never

record Settings =
  deleteFirst :: "bool option"
  exportRetention :: "int option"
  reportWhen :: "ReportWhen option"
  snapshotRetention :: "int option"
  vmTimeout :: "int option"

datatype knob = DeleteFirst | ExportRetention | ReportWhenK | SnapshotRetention | VmTimeout

datatype setting_value = VBool bool | VNum int | VReport ReportWhen

text \<open>\<open>objectSettings[name]\<close>: \<open>None\<close> is JavaScript's \<open>undefined\<close>.\<close>

fun setting_field :: "Settings \<Rightarrow> knob \<Rightarrow> setting_value option" where
  "setting_field s DeleteFirst = map_option VBool (deleteFirst s)"
| "setting_field s ExportRetention = map_option VNum (exportRetention s)"
| "setting_field s ReportWhenK = map_option VReport (reportWhen s)"
| "setting_field s SnapshotRetention = map_option VNum (snapshotRetention s)"
| "setting_field s VmTimeout = map_option VNum (vmTimeout s)"

fun defaultSettings :: "knob \<Rightarrow> setting_value" where
  "defaultSettings DeleteFirst = VBool False"
| "defaultSettings ExportRetention = VNum 0"
| "defaultSettings ReportWhenK = VReport Failure"
| "defaultSettings SnapshotRetention = VNum 0"
| "defaultSettings VmTimeout = VNum 0"

fun getSetting :: "(string \<rightharpoonup> Settings) \<Rightarrow> knob \<Rightarrow> string list \<Rightarrow> setting_value" where
  "getSetting settings name [] = defaultSettings name"
| "getSetting settings name (k # keys) =
     (case settings k of
        None \<Rightarrow> getSetting settings name keys
      | Some objectSettings \<Rightarrow>
          (case setting_field objectSettings name of
             None \<Rightarrow> getSetting settings name keys
           | Some setting \<Rightarrow> setting))"

text \<open>A scope key defines a knob when its setting record exists and has the field.\<close>

definition defines_knob :: "(string \<rightharpoonup> Settings) \<Rightarrow> knob \<Rightarrow> string \<Rightarrow> bool" where
  "defines_knob settings name k =
     (case settings k of
        None \<Rightarrow> False
      | Some objectSettings \<Rightarrow> setting_field objectSettings name \<noteq> None)"

text \<open>The value a defining scope gives to the knob.\<close>

definition knob_value :: "(string \<rightharpoonup> Settings) \<Rightarrow> knob \<Rightarrow> string \<Rightarrow> setting_value option" where
  "knob_value settings name k =
     (case settings k of
        None \<Rightarrow> None
      | Some objectSettings \<Rightarrow> setting_field objectSettings name)"

section \<open>Backup identifiers\<close>

record VmBackupId =
  metadataFilename :: string
  remoteId :: string

definition parseVmBackupId :: "string \<Rightarrow> VmBackupId" where
  "parseVmBackupId ident =
     (let i = indexOf ident CHR ''/''
      in \<lparr> metadataFilename = js_slice ident (i + 1) None,
           remoteId = js_slice ident 0 (Some i) \<rparr>)"

text \<open>The id that \<open>listVmBackupsNg\<close> injects: \<open>`${remoteId}/${backup._filename}`\<close>.\<close>

definition backup_id :: "string \<Rightarrow> string \<Rightarrow> string" where
  "backup_id rid filename = rid @ ''/'' @ filename"

text \<open>
  \<open>Array.prototype.sort\<close> with a comparator, as an insertion sort: an element goes
  before the first one it does not compare greater than. Where the comparator never
  answers \<open>0\<close> on equal keys (as \<open>compareSnapshotTime\<close>), the order among equal keys is
  the engine's choice; only sortedness and the elements are used below.
\<close>

fun js_insert :: "('a \<Rightarrow> 'a \<Rightarrow> int) \<Rightarrow> 'a \<Rightarrow> 'a list \<Rightarrow> 'a list" where
  "js_insert cmp x [] = [x]"
| "js_insert cmp x (y # ys) =
     (if cmp x y \<le> 0 then x # y # ys else y # js_insert cmp x ys)"

fun js_sort :: "('a \<Rightarrow> 'a \<Rightarrow> int) \<Rightarrow> 'a list \<Rightarrow> 'a list" where
  "js_sort cmp [] = []"
| "js_sort cmp (x # xs) = js_insert cmp x (js_sort cmp xs)"

section \<open>Hypervisor objects and replicated VMs\<close>

text \<open>
  The fields of a hypervisor record that the engine reads. \<open>None\<close> in a map is
  JavaScript's \<open>undefined\<close>.
\<close>

record XapiObject =
  obj_id :: string
  obj_type :: string
  is_a_snapshot :: bool
  is_a_template :: bool
  blocked_operations :: "string \<rightharpoonup> string"
  other_config :: "string \<rightharpoonup> string"
  snapshot_time :: int

definition compareSnapshotTime :: "XapiObject \<Rightarrow> XapiObject \<Rightarrow> int" where
  "compareSnapshotTime a b = (if snapshot_time a < snapshot_time b then -1 else 1)"

text \<open>The condition of the \<open>if\<close> in the loop of \<open>listReplicatedVms\<close>.\<close>

definition replicated_cond :: "string \<Rightarrow> string \<Rightarrow> string option \<Rightarrow> XapiObject \<Rightarrow> bool" where
  "replicated_cond scheduleId srId vmUuid object =
     (let oc = other_config object
      in obj_type object = ''vm'' \<and>
         \<not> is_a_snapshot object \<and>
         \<not> is_a_template object \<and>
         blocked_operations object ''start'' \<noteq> None \<and>
         oc ''xo:backup:schedule'' = Some scheduleId \<and>
         oc ''xo:backup:sr'' = Some srId \<and>
         (oc ''xo:backup:vm'' = vmUuid \<or> oc ''xo:backup:vm'' = None))"

text \<open>
  A JavaScript object used as a dictionary: an association list in insertion order;
  assigning to an existing key keeps its place.
\<close>

fun dict_set :: "(string \<times> 'v) list \<Rightarrow> string \<Rightarrow> 'v \<Rightarrow> (string \<times> 'v) list" where
  "dict_set [] k v = [(k, v)]"
| "dict_set ((k', v') # d) k v =
     (if k' = k then (k, v) # d else (k', v') # dict_set d k v)"

fun dict_get :: "(string \<times> 'v) list \<Rightarrow> string \<Rightarrow> 'v option" where
  "dict_get [] k = None"
| "dict_get ((k', v') # d) k = (if k' = k then Some v' else dict_get d k)"

definition dict_delete :: "(string \<times> 'v) list \<Rightarrow> string \<Rightarrow> (string \<times> 'v) list" where
  "dict_delete d k = filter (\<lambda>kv. fst kv \<noteq> k) d"

text \<open>The \<open>for (const key in all)\<close> loop, with the dictionary \<open>vms\<close> as accumulator.\<close>

fun collect_replicated ::
  "string \<Rightarrow> string \<Rightarrow> string option \<Rightarrow> (string \<times> XapiObject) list
     \<Rightarrow> (string \<times> XapiObject) list \<Rightarrow> (string \<times> XapiObject) list" where
  "collect_replicated scheduleId srId vmUuid vms [] = vms"
| "collect_replicated scheduleId srId vmUuid vms ((key, object) # rest) =
     collect_replicated scheduleId srId vmUuid
       (if replicated_cond scheduleId srId vmUuid object
        then dict_set vms (obj_id object) object else vms)
       rest"

definition listReplicatedVms ::
  "(string \<times> XapiObject) list \<Rightarrow> string \<Rightarrow> string \<Rightarrow> string option \<Rightarrow> XapiObject list" where
  "listReplicatedVms all scheduleId srId vmUuid =
     js_sort compareSnapshotTime
       (map snd (collect_replicated scheduleId srId vmUuid [] all))"

text \<open>Sample cache entries: a replica tagged for \<open>vm1\<close>, a replica made before the
  \<open>xo:backup:vm\<close> tag existed, a replica of another VM, and a snapshot.\<close>

definition replica_tagged :: XapiObject where
  "replica_tagged =
     \<lparr> obj_id = ''r2'', obj_type = ''vm'', is_a_snapshot = False, is_a_template = False,
       blocked_operations = [''start'' \<mapsto> ''blocked''],
       other_config = [''xo:backup:schedule'' \<mapsto> ''s1'', ''xo:backup:sr'' \<mapsto> ''sr1'',
                       ''xo:backup:vm'' \<mapsto> ''vm1''],
       snapshot_time = 20 \<rparr>"

definition replica_legacy :: XapiObject where
  "replica_legacy =
     \<lparr> obj_id = ''r1'', obj_type = ''vm'', is_a_snapshot = False, is_a_template = False,
       blocked_operations = [''start'' \<mapsto> ''blocked''],
       other_config = [''xo:backup:schedule'' \<mapsto> ''s1'', ''xo:backup:sr'' \<mapsto> ''sr1''],
       snapshot_time = 30 \<rparr>"

definition replica_other :: XapiObject where
  "replica_other =
     \<lparr> obj_id = ''r3'', obj_type = ''vm'', is_a_snapshot = False, is_a_template = False,
       blocked_operations = [''start'' \<mapsto> ''blocked''],
       other_config = [''xo:backup:schedule'' \<mapsto> ''s1'', ''xo:backup:sr'' \<mapsto> ''sr1'',
                       ''xo:backup:vm'' \<mapsto> ''vm2''],
       snapshot_time = 10 \<rparr>"

definition replica_cache :: "(string \<times> XapiObject) list" where
  "replica_cache = [(''r1'', replica_legacy), (''r2'', replica_tagged), (''r3'', replica_other)]"

section \<open>Log consolidation\<close>

text \<open>
  A raw log entry has a time, a message and a data object; the fields of the data object
  that the consolidation reads or copies are listed, the others are kept in \<open>d_extra\<close>.
  An absent field is \<open>None\<close>.
\<close>

record LogData =
  d_event :: "string option"
  d_type :: "string option"
  d_parentId :: "string option"
  d_taskId :: "string option"
  d_runJobId :: "string option"
  d_status :: "string option"
  d_result :: "string option"
  d_error :: "string option"
  d_data :: "string option"
  d_extra :: "(string \<times> string) list"

record RawLog =
  log_data :: LogData
  log_time :: int
  log_message :: string

text \<open>
  A consolidated record: the fields spread from the data object (without \<open>event\<close>,
  which is deleted first) and the fields that the consolidation assigns.
\<close>

record Consolidated =
  c_type :: "string option"
  c_parentId :: "string option"
  c_taskId :: "string option"
  c_runJobId :: "string option"
  c_status :: "string option"
  c_result :: "string option"
  c_error :: "string option"
  c_data :: "string option"
  c_extra :: "(string \<times> string) list"
  c_id :: "string option"
  c_start :: int
  c_message :: "string option"
  c_end :: "int option"
  c_duration :: "int option"

text \<open>\<open>{ ...data, start: time }\<close>: the spread of the data object.\<close>

definition spread_data :: "LogData \<Rightarrow> int \<Rightarrow> Consolidated" where
  "spread_data d t =
     \<lparr> c_type = d_type d, c_parentId = d_parentId d, c_taskId = d_taskId d,
       c_runJobId = d_runJobId d, c_status = d_status d, c_result = d_result d,
       c_error = d_error d, c_data = d_data d, c_extra = d_extra d,
       c_id = None, c_start = t, c_message = None, c_end = None, c_duration = None \<rparr>"

text \<open>A property key: \<open>logs[undefined]\<close> reads the key \<open>"undefined"\<close>.\<close>

definition js_key :: "string option \<Rightarrow> string" where
  "js_key k = (case k of None \<Rightarrow> ''undefined'' | Some s \<Rightarrow> s)"

text \<open>The body of the \<open>forEach\<close> over the raw logs: one \<open>switch\<close> on the event.\<close>

definition consolidate ::
  "string option \<Rightarrow> (string \<times> Consolidated) list \<Rightarrow> string \<times> RawLog
     \<Rightarrow> (string \<times> Consolidated) list" where
  "consolidate runId logs entry =
     (let ident = fst entry; log = snd entry;
          d = log_data log; t = log_time log; msg = log_message log
      in if d_event d = Some ''job.start'' then
           (if d_type d = Some ''backup'' \<and> (runId = None \<or> runId = Some ident)
            then dict_set logs ident ((spread_data d t)\<lparr> c_id := Some ident \<rparr>)
            else logs)
         else if d_event d = Some ''job.end'' then
           (case dict_get logs (js_key (d_runJobId d)) of
              None \<Rightarrow> logs
            | Some job \<Rightarrow>
                dict_set logs (js_key (d_runJobId d))
                  (job\<lparr> c_end := Some t, c_duration := Some (t - c_start job),
                        c_error := d_error d \<rparr>))
         else if d_event d = Some ''task.start'' then
           (if dict_get logs (js_key (d_parentId d)) \<noteq> None
            then dict_set logs ident ((spread_data d t)\<lparr> c_message := Some msg \<rparr>)
            else logs)
         else if d_event d = Some ''task.end'' then
           (case dict_get logs (js_key (d_taskId d)) of
              None \<Rightarrow> logs
            | Some task \<Rightarrow>
                if t = c_start task \<and> (msg = ''merge'' \<or> msg = ''tranfer'')
                then dict_delete logs (js_key (d_taskId d))
                else dict_set logs (js_key (d_taskId d))
                       (task\<lparr> c_status := d_status d, c_taskId := d_taskId d,
                              c_result := d_result d, c_end := Some t,
                              c_duration := Some (t - c_start task) \<rparr>))
         else logs)"

text \<open>\<open>groupBy(logs, log => log.parentId || 'roots')\<close>: an empty or absent parent id is
  falsy.\<close>

definition group_key :: "Consolidated \<Rightarrow> string" where
  "group_key r = (case c_parentId r of None \<Rightarrow> ''roots'' | Some p \<Rightarrow> if p = [] then ''roots'' else p)"

fun groupBy :: "('a \<Rightarrow> string) \<Rightarrow> (string \<times> 'a list) list \<Rightarrow> 'a list \<Rightarrow> (string \<times> 'a list) list" where
  "groupBy f acc [] = acc"
| "groupBy f acc (x # xs) =
     groupBy f
       (dict_set acc (f x) (case dict_get acc (f x) of None \<Rightarrow> [x] | Some ys \<Rightarrow> ys @ [x]))
       xs"

definition getBackupNgLogs ::
  "string option \<Rightarrow> (string \<times> RawLog) list \<Rightarrow> (string \<times> Consolidated list) list" where
  "getBackupNgLogs runId rawLogs =
     groupBy group_key [] (map snd (foldl (consolidate runId) [] rawLogs))"

text \<open>A sample run: a job, a VM task under it, a merge task that starts and ends at the
  same time, and the end of the VM task.\<close>

definition blank_data :: LogData where
  "blank_data =
     \<lparr> d_event = None, d_type = None, d_parentId = None, d_taskId = None, d_runJobId = None,
       d_status = None, d_result = None, d_error = None, d_data = None, d_extra = [] \<rparr>"

definition sample_job_start :: RawLog where
  "sample_job_start =
     \<lparr> log_data = blank_data\<lparr> d_event := Some ''job.start'', d_type := Some ''backup'' \<rparr>,
       log_time = 100, log_message = ''Starting job'' \<rparr>"

definition sample_vm_start :: RawLog where
  "sample_vm_start =
     \<lparr> log_data = blank_data\<lparr> d_event := Some ''task.start'', d_parentId := Some ''j1'' \<rparr>,
       log_time = 110, log_message = ''Starting backup of vm'' \<rparr>"

definition sample_merge_start :: RawLog where
  "sample_merge_start =
     \<lparr> log_data = blank_data\<lparr> d_event := Some ''task.start'', d_parentId := Some ''t1'' \<rparr>,
       log_time = 120, log_message = ''merge'' \<rparr>"

definition sample_merge_end :: RawLog where
  "sample_merge_end =
     \<lparr> log_data = blank_data\<lparr> d_event := Some ''task.end'', d_taskId := Some ''t2'',
                                d_status := Some ''success'' \<rparr>,
       log_time = 120, log_message = ''merge'' \<rparr>"

definition sample_vm_end :: RawLog where
  "sample_vm_end =
     \<lparr> log_data = blank_data\<lparr> d_event := Some ''task.end'', d_taskId := Some ''t1'',
                                d_status := Some ''success'', d_result := Some ''ok'' \<rparr>,
       log_time = 150, log_message = ''Backuping vm is a success'' \<rparr>"

section \<open>Atomic writer\<close>

type_synonym error = string

text \<open>
  The operations \<open>writeStream\<close> performs on the input, the output stream and the remote
  handler, in the order it performs them.
\<close>

datatype handler_op =
    CreateOutputStream string bool
  | Pipe
  | AwaitFinish
  | AwaitChecksumWritten
  | AwaitTask
  | Rename string string bool
  | Unlink string bool

text \<open>
  What each awaited step answers in one run: \<open>None\<close> when it resolves, \<open>Some e\<close> when
  it rejects with \<open>e\<close>. The handler and the streams are outside the engine, so their
  answers are parameters.
\<close>

record write_outcomes =
  input_res :: "error option"
  create_res :: "error option"
  finish_res :: "error option"
  checksum_res :: "error option"
  task_res :: "error option"
  rename_res :: "error option"
  unlink_res :: "error option"

text \<open>
  The \<open>try\<close> block: pipe, then await the output's \<open>finish\<close>, its
  \<open>checksumWritten\<close> and the input's \<open>task\<close>, then rename.
\<close>

definition write_body ::
  "write_outcomes \<Rightarrow> string \<Rightarrow> string \<Rightarrow> bool \<Rightarrow> handler_op list \<times> (error + unit)" where
  "write_body oc tmpPath path checksum =
     (case finish_res oc of
        Some e \<Rightarrow> ([Pipe, AwaitFinish], Inl e)
      | None \<Rightarrow>
     (case checksum_res oc of
        Some e \<Rightarrow> ([Pipe, AwaitFinish, AwaitChecksumWritten], Inl e)
      | None \<Rightarrow>
     (case task_res oc of
        Some e \<Rightarrow> ([Pipe, AwaitFinish, AwaitChecksumWritten, AwaitTask], Inl e)
      | None \<Rightarrow>
     (case rename_res oc of
        Some e \<Rightarrow>
          ([Pipe, AwaitFinish, AwaitChecksumWritten, AwaitTask, Rename tmpPath path checksum],
           Inl e)
      | None \<Rightarrow>
          ([Pipe, AwaitFinish, AwaitChecksumWritten, AwaitTask, Rename tmpPath path checksum],
           Inr ())))))"

text \<open>
  The temporary name \<open>`${dirname(path)}/.${basename(path)}`\<close>; \<open>dirname\<close> and
  \<open>basename\<close> are those of the platform's path module and are parameters.
\<close>

definition tmp_path :: "(string \<Rightarrow> string) \<Rightarrow> (string \<Rightarrow> string) \<Rightarrow> string \<Rightarrow> string" where
  "tmp_path dirname basename path = dirname path @ ''/.'' @ basename path"

text \<open>
  \<open>writeStream\<close>. The input promise and \<open>createOutputStream\<close> are awaited before the
  \<open>try\<close>; the \<open>catch\<close> awaits \<open>unlink\<close> and then rethrows.
\<close>

definition writeStream ::
  "(string \<Rightarrow> string) \<Rightarrow> (string \<Rightarrow> string) \<Rightarrow> write_outcomes \<Rightarrow> string \<Rightarrow> bool
     \<Rightarrow> handler_op list \<times> (error + unit)" where
  "writeStream dirname basename oc path checksum =
     (case input_res oc of
        Some e \<Rightarrow> ([], Inl e)
      | None \<Rightarrow>
          (let tmpPath = tmp_path dirname basename path
           in case create_res oc of
                Some e \<Rightarrow> ([CreateOutputStream tmpPath checksum], Inl e)
              | None \<Rightarrow>
                  (case write_body oc tmpPath path checksum of
                     (ops, Inr u) \<Rightarrow> (CreateOutputStream tmpPath checksum # ops, Inr u)
                   | (ops, Inl error) \<Rightarrow>
                       (CreateOutputStream tmpPath checksum # ops @ [Unlink tmpPath checksum],
                        case unlink_res oc of
                          Some e' \<Rightarrow> Inl e'
                        | None \<Rightarrow> Inl error))))"

text \<open>The first rejection among the steps of the \<open>try\<close> block that precede the rename.\<close>

definition error_before_rename :: "write_outcomes \<Rightarrow> error option" where
  "error_before_rename oc =
     (case finish_res oc of
        Some e \<Rightarrow> Some e
      | None \<Rightarrow>
          (case checksum_res oc of
             Some e \<Rightarrow> Some e
           | None \<Rightarrow> task_res oc))"

definition is_rename :: "handler_op \<Rightarrow> bool" where
  "is_rename op = (case op of Rename a b c \<Rightarrow> True | _ \<Rightarrow> False)"

definition all_resolve :: write_outcomes where
  "all_resolve =
     \<lparr> input_res = None, create_res = None, finish_res = None, checksum_res = None,
       task_res = None, rename_res = None, unlink_res = None \<rparr>"

text \<open>
  For sample runs: the directory part and the last segment of a path that has a slash
  and does not end with one, where the path module's \<open>dirname\<close> and \<open>basename\<close>
  answer the same.
\<close>

definition sample_dirname :: "string \<Rightarrow> string" where
  "sample_dirname p = rev (drop 1 (dropWhile (\<lambda>c. c \<noteq> CHR ''/'') (rev p)))"

definition sample_basename :: "string \<Rightarrow> string" where
  "sample_basename p = rev (takeWhile (\<lambda>c. c \<noteq> CHR ''/'') (rev p))"

section \<open>Backups on a remote\<close>

text \<open>
  The fields of a metadata sidecar that the rotation reads; \<open>m_filename\<close> is the
  \<open>_filename\<close> that \<open>_listVmBackups\<close> attaches.
\<close>

record Metadata =
  m_filename :: string
  m_jobId :: string
  m_mode :: string
  m_scheduleId :: string
  m_timestamp :: int

definition compareTimestamp :: "Metadata \<Rightarrow> Metadata \<Rightarrow> int" where
  "compareTimestamp a b = m_timestamp a - m_timestamp b"

text \<open>
  \<open>_listVmBackups\<close>, on the directory of one VM on one remote, given as the list of
  its sidecars that parse, each under its own file name: the sidecars that satisfy the
  predicate, sorted by timestamp. Payload files are not part of the state.
\<close>

definition listVmBackups :: "(Metadata \<Rightarrow> bool) \<Rightarrow> Metadata list \<Rightarrow> Metadata list" where
  "listVmBackups predicate sidecars = js_sort compareTimestamp (filter predicate sidecars)"

text \<open>
  Modelled from the spec: the remote handler's \<open>unlink\<close> (section 6.2; the handler is
  not among the sources), as \<open>_deleteFullVmBackups\<close> and \<open>_deleteDeltaVmBackups\<close> call
  it on the sidecar of each backup: the files named leave the directory.
\<close>

definition remove_sidecars :: "Metadata list \<Rightarrow> Metadata list \<Rightarrow> Metadata list" where
  "remove_sidecars backups sidecars =
     filter (\<lambda>m. m_filename m \<notin> set (map m_filename backups)) sidecars"

text \<open>
  Modelled from the spec: the remote handler's \<open>outputFile\<close> (section 6.2): the file
  named is created, or replaced when it exists.
\<close>

definition put_sidecar :: "Metadata \<Rightarrow> Metadata list \<Rightarrow> Metadata list" where
  "put_sidecar new sidecars =
     filter (\<lambda>m. m_filename m \<noteq> m_filename new) sidecars @ [new]"

text \<open>The awaited steps of one remote's export task, in the order of the source.\<close>

datatype remote_op =
    GetHandler
  | ListBackups
  | DeleteOld "string list"
  | Transfer
  | OutputFile string

record remote_outcomes =
  r_handler :: "error option"
  r_list :: "error option"
  r_delete :: "error option"
  r_transfer :: "error option"
  r_output :: "error option"

text \<open>The answer that belongs to each operation.\<close>

fun op_answer :: "remote_outcomes \<Rightarrow> remote_op \<Rightarrow> error option" where
  "op_answer oc GetHandler = r_handler oc"
| "op_answer oc ListBackups = r_list oc"
| "op_answer oc (DeleteOld names) = r_delete oc"
| "op_answer oc Transfer = r_transfer oc"
| "op_answer oc (OutputFile name) = r_output oc"

record remote_run =
  run_ops :: "remote_op list"
  run_result :: "error + unit"
  run_sidecars :: "Metadata list"

text \<open>
  One awaited step: skipped once the task has rejected; a rejection ends the task and
  leaves the directory as it was, a resolution applies the step's effect.
\<close>

definition attempt ::
  "error option \<Rightarrow> remote_op \<Rightarrow> (Metadata list \<Rightarrow> Metadata list) \<Rightarrow> remote_run \<Rightarrow> remote_run" where
  "attempt outcome op effect run =
     (case run_result run of
        Inl e \<Rightarrow> run
      | Inr u \<Rightarrow>
          (case outcome of
             Some e \<Rightarrow> run\<lparr> run_ops := run_ops run @ [op], run_result := Inl e \<rparr>
           | None \<Rightarrow> run\<lparr> run_ops := run_ops run @ [op],
                            run_sidecars := effect (run_sidecars run) \<rparr>))"

text \<open>A task is a list of steps: the step's outcome, its operation and its effect.\<close>

type_synonym remote_step = "error option \<times> remote_op \<times> (Metadata list \<Rightarrow> Metadata list)"

fun run_steps :: "remote_step list \<Rightarrow> remote_run \<Rightarrow> remote_run" where
  "run_steps [] run = run"
| "run_steps ((outcome, op, effect) # steps) run = run_steps steps (attempt outcome op effect run)"

text \<open>
  The body shared by the two remote export tasks of \<open>_backupVm\<close>: get the handler, list
  the matching backups and select the old ones, delete them now when \<open>deleteFirst\<close>,
  transfer the payload, write the sidecar, delete the old ones when not \<open>deleteFirst\<close>.
\<close>

definition remote_steps ::
  "remote_outcomes \<Rightarrow> bool \<Rightarrow> bool \<Rightarrow> (Metadata \<Rightarrow> bool) \<Rightarrow> int \<Rightarrow> Metadata
     \<Rightarrow> Metadata list \<Rightarrow> remote_step list" where
  "remote_steps oc delete_first transfer predicate retention new sidecars =
     (let oldBackups = getOldEntries retention (Some (listVmBackups predicate sidecars));
          deleteOldBackups =
            (r_delete oc, DeleteOld (map m_filename oldBackups), remove_sidecars oldBackups)
      in [(r_handler oc, GetHandler, id), (r_list oc, ListBackups, id)]
         @ (if delete_first then [deleteOldBackups] else [])
         @ (if transfer then [(r_transfer oc, Transfer, id)] else [])
         @ [(r_output oc, OutputFile (m_filename new), put_sidecar new)]
         @ (if \<not> delete_first then [deleteOldBackups] else []))"

definition remote_export ::
  "remote_outcomes \<Rightarrow> bool \<Rightarrow> bool \<Rightarrow> (Metadata \<Rightarrow> bool) \<Rightarrow> int \<Rightarrow> Metadata
     \<Rightarrow> Metadata list \<Rightarrow> remote_run" where
  "remote_export oc delete_first transfer predicate retention new sidecars =
     run_steps (remote_steps oc delete_first transfer predicate retention new sidecars)
       \<lparr> run_ops = [], run_result = Inr (), run_sidecars = sidecars \<rparr>"

text \<open>How a setting is used as a number and as a condition.\<close>

fun as_num :: "setting_value \<Rightarrow> int" where
  "as_num (VNum n) = n"
| "as_num (VBool b) = (if b then 1 else 0)"
| "as_num (VReport r) = 0"

fun truthy :: "setting_value \<Rightarrow> bool" where
  "truthy (VBool b) = b"
| "truthy (VNum n) = (n \<noteq> 0)"
| "truthy (VReport r) = True"

text \<open>Full mode: \<open>deleteFirst\<close> is the remote's setting.\<close>

definition export_full_remote ::
  "remote_outcomes \<Rightarrow> (string \<rightharpoonup> Settings) \<Rightarrow> int \<Rightarrow> string \<Rightarrow> string \<Rightarrow> Metadata
     \<Rightarrow> Metadata list \<Rightarrow> remote_run" where
  "export_full_remote oc settings retention scheduleId rid new sidecars =
     remote_export oc (truthy (getSetting settings DeleteFirst [rid])) True
       (\<lambda>m. m_mode m = ''full'' \<and> m_scheduleId m = scheduleId) retention new sidecars"

text \<open>
  Delta mode: \<open>deleteFirst = exportRetention > 1 && getSetting(settings, 'deleteFirst',
  remoteId)\<close>; the transfer is skipped when the export has no disk.
\<close>

definition export_delta_remote ::
  "remote_outcomes \<Rightarrow> (string \<rightharpoonup> Settings) \<Rightarrow> int \<Rightarrow> string \<Rightarrow> string \<Rightarrow> bool \<Rightarrow> Metadata
     \<Rightarrow> Metadata list \<Rightarrow> remote_run" where
  "export_delta_remote oc settings retention scheduleId rid vdis_empty new sidecars =
     remote_export oc (retention > 1 \<and> truthy (getSetting settings DeleteFirst [rid]))
       (\<not> vdis_empty)
       (\<lambda>m. m_mode m = ''delta'' \<and> m_scheduleId m = scheduleId) retention new sidecars"

text \<open>Sample sidecars of one schedule in delta mode, and a remote whose steps all
  resolve.\<close>

definition sample_sidecar :: "string \<Rightarrow> string \<Rightarrow> int \<Rightarrow> Metadata" where
  "sample_sidecar name mode t =
     \<lparr> m_filename = ''xo-vm-backups/vm1/'' @ name @ ''.json'', m_jobId = ''job1'',
       m_mode = mode, m_scheduleId = ''s1'', m_timestamp = t \<rparr>"

definition remote_ok :: remote_outcomes where
  "remote_ok =
     \<lparr> r_handler = None, r_list = None, r_delete = None, r_transfer = None, r_output = None \<rparr>"

definition delete_first_on :: "string \<Rightarrow> (string \<rightharpoonup> Settings)" where
  "delete_first_on rid =
     [rid \<mapsto> \<lparr> deleteFirst = Some True, exportRetention = None, reportWhen = None,
               snapshotRetention = None, vmTimeout = None \<rparr>]"

section \<open>VM backup worker\<close>

datatype SimpleIdPattern = Id string | IdOr "string list"

definition unboxIds :: "SimpleIdPattern option \<Rightarrow> string list" where
  "unboxIds pattern =
     (case pattern of
        None \<Rightarrow> []
      | Some (Id i) \<Rightarrow> [i]
      | Some (IdOr ids) \<Rightarrow> ids)"

record BackupJob =
  job_id :: string
  job_name :: string
  job_mode :: string
  job_remotes :: "SimpleIdPattern option"
  job_srs :: "SimpleIdPattern option"
  job_settings :: "string \<rightharpoonup> Settings"

definition getVmBackupDir :: "string \<Rightarrow> string" where
  "getVmBackupDir uuid = ''xo-vm-backups/'' @ uuid"

text \<open>
  The state a run of the worker reads and changes: the snapshots of the VM on the
  hypervisor (\<open>vm.$snapshots\<close>) and, for each remote, the sidecars in the VM's
  directory.
\<close>

record world =
  w_snapshots :: "XapiObject list"
  w_remotes :: "string \<Rightarrow> Metadata list"

text \<open>
  What the awaited calls of one run answer: \<open>None\<close> when the call resolves, \<open>Some e\<close>
  when it rejects. \<open>o_vdis_empty\<close> tells whether the delta export has no disk.
\<close>

record answers =
  o_clear_tags :: "error option"
  o_healthy :: "error option"
  o_snapshot :: "error option"
  o_tag :: "error option"
  o_barrier :: "error option"
  o_export :: "error option"
  o_vdis_empty :: bool
  o_remote :: "string \<Rightarrow> remote_outcomes"

text \<open>
  Modelled from the spec: the hypervisor client's \<open>deleteVm\<close> (section 6.1; the client
  is not among the sources), called on each of the given VMs: they leave the hypervisor.
\<close>

definition deleteVms :: "XapiObject list \<Rightarrow> XapiObject list \<Rightarrow> XapiObject list" where
  "deleteVms vms snaps = filter (\<lambda>s. obj_id s \<notin> set (map obj_id vms)) snaps"

text \<open>
  The deferred actions of \<open>golike-defer\<close>, all of them deletions of VMs here: \<open>$defer\<close>
  runs at every exit, \<open>$defer.onFailure\<close> only when the function throws; they run in
  the reverse order of their registration, so the list holds the latest first.
\<close>

datatype deferred = Always "XapiObject list" | OnFailure "XapiObject list"

fun run_deferred :: "bool \<Rightarrow> deferred list \<Rightarrow> XapiObject list \<Rightarrow> XapiObject list" where
  "run_deferred failed [] snaps = snaps"
| "run_deferred failed (Always vms # ds) snaps = run_deferred failed ds (deleteVms vms snaps)"
| "run_deferred failed (OnFailure vms # ds) snaps =
     run_deferred failed ds (if failed then deleteVms vms snaps else snaps)"

text \<open>
  Modelled from the spec: the hypervisor client's \<open>updateObjectMapProperty\<close> (section
  6.1), as called on the new snapshot: its \<open>other_config\<close> gets the three tags.
\<close>

definition tag_snapshot :: "string \<Rightarrow> string \<Rightarrow> string \<Rightarrow> XapiObject \<Rightarrow> XapiObject" where
  "tag_snapshot jobId scheduleId vmUuid snapshot =
     snapshot\<lparr> other_config :=
       (other_config snapshot)(''xo:backup:job'' \<mapsto> jobId,
                               ''xo:backup:schedule'' \<mapsto> scheduleId,
                               ''xo:backup:vm'' \<mapsto> vmUuid) \<rparr>"

text \<open>
  \<open>waitAll(remotes.map(task), noop)\<close>: every remote's task runs on that remote's
  directory and its rejection is dropped. The tasks are concurrent, each on its own
  remote; they are run here in the order of the list. The tasks of the SR targets act
  on the replicated VMs of the target pool only: they change neither the snapshots nor
  the remotes, and their rejections are dropped likewise.
\<close>

fun export_remotes ::
  "(string \<Rightarrow> Metadata list \<Rightarrow> remote_run) \<Rightarrow> string list \<Rightarrow> (string \<Rightarrow> Metadata list)
     \<Rightarrow> (string \<Rightarrow> Metadata list)" where
  "export_remotes task [] rs = rs"
| "export_remotes task (rid # rids) rs =
     export_remotes task rids (rs(rid := run_sidecars (task rid (rs rid))))"

text \<open>
  The part of \<open>_backupVm\<close> after the barrier, when \<open>exportRetention\<close> is not 0: the
  result, the deferred actions it registers (latest first) and the remotes.
\<close>

definition export_phase ::
  "answers \<Rightarrow> BackupJob \<Rightarrow> int \<Rightarrow> int \<Rightarrow> string \<Rightarrow> string \<Rightarrow> string \<Rightarrow> int \<Rightarrow> XapiObject
     \<Rightarrow> (string \<Rightarrow> Metadata list)
     \<Rightarrow> (error + unit) \<times> deferred list \<times> (string \<Rightarrow> Metadata list)" where
  "export_phase orc job export_retention snapshot_retention scheduleId vmUuid basename now
       snapshot rs =
     (let remotes = unboxIds (job_remotes job);
          srs = unboxIds (job_srs job);
          nTargets = length remotes + length srs
      in if nTargets = 0
         then (Inl ''export retention must be 0 without remotes and SRs'', [], rs)
         else
           (let metadataPath = getVmBackupDir vmUuid @ ''/'' @ basename @ ''.json''
            in if job_mode job = ''full'' then
                 (let ds = (if snapshot_retention = 0 then [Always [snapshot]] else []);
                      metadata = \<lparr> m_filename = metadataPath, m_jobId = job_id job,
                                   m_mode = ''full'', m_scheduleId = scheduleId,
                                   m_timestamp = now \<rparr>
                  in case o_export orc of
                       Some e \<Rightarrow> (Inl e, ds, rs)
                     | None \<Rightarrow>
                         (Inr (), ds,
                          export_remotes
                            (\<lambda>rid. export_full_remote (o_remote orc rid) (job_settings job)
                                     export_retention scheduleId rid metadata)
                            remotes rs))
               else if job_mode job = ''delta'' then
                 (let ds = (if snapshot_retention = 0 then [OnFailure [snapshot]] else []);
                      metadata = \<lparr> m_filename = metadataPath, m_jobId = job_id job,
                                   m_mode = ''delta'', m_scheduleId = scheduleId,
                                   m_timestamp = now \<rparr>
                  in case o_export orc of
                       Some e \<Rightarrow> (Inl e, ds, rs)
                     | None \<Rightarrow>
                         (Inr (), ds,
                          export_remotes
                            (\<lambda>rid. export_delta_remote (o_remote orc rid) (job_settings job)
                                     export_retention scheduleId rid (o_vdis_empty orc) metadata)
                            remotes rs))
               else (Inl (''no exporter for backup mode '' @ job_mode job), [], rs)))"

text \<open>
  The part of \<open>_backupVm\<close> from the snapshot's tagging on: it registers the deletion of
  the old snapshots of the schedule, waits for the barrier, returns when
  \<open>exportRetention\<close> is 0 and exports otherwise.
\<close>

definition snapshot_phase ::
  "answers \<Rightarrow> BackupJob \<Rightarrow> int \<Rightarrow> int \<Rightarrow> string \<Rightarrow> string \<Rightarrow> string \<Rightarrow> int
     \<Rightarrow> XapiObject list \<Rightarrow> XapiObject \<Rightarrow> (string \<Rightarrow> Metadata list)
     \<Rightarrow> (error + unit) \<times> deferred list \<times> (string \<Rightarrow> Metadata list)" where
  "snapshot_phase orc job export_retention snapshot_retention scheduleId vmUuid basename now
       snapshots snapshot rs =
     (let old = Always (getOldEntries snapshot_retention
                  (Some (filter (\<lambda>s. other_config s ''xo:backup:schedule'' = Some scheduleId)
                           snapshots)))
      in case o_barrier orc of
           Some e \<Rightarrow> (Inl e, [old], rs)
         | None \<Rightarrow>
             if export_retention = 0 then (Inr (), [old], rs)
             else (case export_phase orc job export_retention snapshot_retention scheduleId
                          vmUuid basename now snapshot rs of
                     (res, ds, rs') \<Rightarrow> (res, ds @ [old], rs')))"

text \<open>
  \<open>_backupVm\<close>. \<open>vm\<close> is the VM object, \<open>fresh\<close> the snapshot as the hypervisor creates
  it, \<open>basename\<close> the formatted date of \<open>now\<close>. The deferred actions run at the exit.
\<close>

definition backupVm ::
  "answers \<Rightarrow> string \<Rightarrow> XapiObject \<Rightarrow> BackupJob \<Rightarrow> string \<Rightarrow> XapiObject \<Rightarrow> string \<Rightarrow> int
     \<Rightarrow> world \<Rightarrow> (error + unit) \<times> world" where
  "backupVm orc vmUuid vm job scheduleId fresh basename now w =
     (case (if other_config vm ''xo:backup:job'' \<noteq> None then o_clear_tags orc else None) of
        Some e \<Rightarrow> (Inl e, w)
      | None \<Rightarrow>
     (let export_retention = as_num (getSetting (job_settings job) ExportRetention [scheduleId]);
          snapshot_retention = as_num (getSetting (job_settings job) SnapshotRetention [scheduleId])
      in if export_retention = 0 \<and> snapshot_retention = 0
         then (Inl ''export and snapshots retentions cannot both be 0'', w)
         else
     (let snapshots = js_sort compareSnapshotTime
                        (filter (\<lambda>s. other_config s ''xo:backup:job'' = Some (job_id job))
                           (w_snapshots w))
      in case o_healthy orc of
           Some e \<Rightarrow> (Inl e, w)
         | None \<Rightarrow>
     (case o_snapshot orc of
        Some e \<Rightarrow> (Inl e, w)
      | None \<Rightarrow>
     (case o_tag orc of
        Some e \<Rightarrow> (Inl e, w\<lparr> w_snapshots := w_snapshots w @ [fresh] \<rparr>)
      | None \<Rightarrow>
     (let snapshot = tag_snapshot (job_id job) scheduleId vmUuid fresh
      in case snapshot_phase orc job export_retention snapshot_retention scheduleId vmUuid
                basename now snapshots snapshot (w_remotes w) of
           (res, ds, rs') \<Rightarrow>
             (res, \<lparr> w_snapshots = run_deferred (isl res) ds (w_snapshots w @ [snapshot]),
                     w_remotes = rs' \<rparr>)))))))"

text \<open>A sample job on one remote, its VM, the snapshot the hypervisor creates, and a run
  in which every call resolves.\<close>

definition sample_job :: "string \<Rightarrow> int \<Rightarrow> int \<Rightarrow> BackupJob" where
  "sample_job mode k s =
     \<lparr> job_id = ''job1'', job_name = ''nightly'', job_mode = mode,
       job_remotes = Some (Id ''r1''), job_srs = None,
       job_settings =
         [''s1'' \<mapsto> \<lparr> deleteFirst = None, exportRetention = Some k, reportWhen = None,
                     snapshotRetention = Some s, vmTimeout = None \<rparr>] \<rparr>"

definition sample_vm :: XapiObject where
  "sample_vm =
     \<lparr> obj_id = ''vm1'', obj_type = ''vm'', is_a_snapshot = False, is_a_template = False,
       blocked_operations = Map.empty, other_config = Map.empty, snapshot_time = 0 \<rparr>"

definition sample_snapshot :: "string \<Rightarrow> int \<Rightarrow> XapiObject" where
  "sample_snapshot ident t =
     \<lparr> obj_id = ident, obj_type = ''vm'', is_a_snapshot = True, is_a_template = False,
       blocked_operations = Map.empty, other_config = Map.empty, snapshot_time = t \<rparr>"

definition answers_ok :: answers where
  "answers_ok =
     \<lparr> o_clear_tags = None, o_healthy = None, o_snapshot = None, o_tag = None,
       o_barrier = None, o_export = None, o_vdis_empty = False,
       o_remote = (\<lambda>rid. remote_ok) \<rparr>"

section \<open>Job executor\<close>

text \<open>
  What the executor does to its surroundings: a call of the logger, with its message and
  data, or the cancellation of the token forked for one VM.
\<close>

datatype effect =
    Notice string LogData
  | LogError string LogData
  | CancelVm string

text \<open>The state of a promise.\<close>

datatype promise = Pending | Fulfilled | Rejected error

text \<open>
  The surroundings of one run: what \<open>_backupVm\<close> answers for a VM (by uuid) when it
  settles, whether its promise is still pending when a given delay has elapsed, the
  error with which the timeout of \<open>promise-toolbox\<close> rejects, and the task id the logger
  returns for the VM's start entry. Every worker is taken to settle in the end: one
  that never does, with no timeout set, would keep the executor waiting for ever.
\<close>

record executor_env =
  worker :: "string \<Rightarrow> error option"
  timed_out :: "string \<Rightarrow> int \<Rightarrow> bool"
  timeout_error :: error
  task_id :: "string \<Rightarrow> string"

text \<open>
  The state of the worker's promise when \<open>await p\<close> returns. \<open>p\<close> is the worker's
  promise, replaced by \<open>pTimeout.call(p, vmTimeout)\<close> when the setting is not 0: that
  race rejects as soon as the delay has elapsed with the worker still pending, and
  leaves it pending; otherwise \<open>await p\<close> returns when the worker has settled. The
  scope keys passed to \<open>getSetting\<close> are the uuid, the schedule id, the logger (an
  object, whose property key is \<open>[object Object]\<close>) and the task id.
\<close>

definition await_vm ::
  "executor_env \<Rightarrow> (string \<rightharpoonup> Settings) \<Rightarrow> string \<Rightarrow> string \<Rightarrow> promise" where
  "await_vm env settings scheduleId uuid =
     (let vm_timeout = as_num (getSetting settings VmTimeout
                         [uuid, scheduleId, ''[object Object]'', task_id env uuid])
      in if vm_timeout \<noteq> 0 \<and> timed_out env uuid vm_timeout then Pending
         else (case worker env uuid of
                 None \<Rightarrow> Fulfilled
               | Some e \<Rightarrow> Rejected e))"

text \<open>
  The callback given to \<open>asyncMap\<close>, for the VM with the given name and uuid: its
  effects, and the state of the VM's worker when the callback returns. The \<open>try\<close>
  block logs the success when \<open>await p\<close> resolves; the \<open>catch\<close> cancels the VM's
  token and logs the failure, with the error serialized, when it rejects, be it with
  the worker's error or with the timeout's. The nested data object
  \<open>{type: 'VM', id: uuid}\<close> of the start entry is kept by its id.
\<close>

definition backup_one ::
  "executor_env \<Rightarrow> BackupJob \<Rightarrow> string \<Rightarrow> string \<Rightarrow> string \<times> string
     \<Rightarrow> effect list \<times> (string \<times> promise)" where
  "backup_one env job runJobId scheduleId vm =
     (let name = fst vm; uuid = snd vm; taskId = task_id env uuid;
          start = Notice (''Starting backup of '' @ name @ ''. ('' @ job_id job @ '')'')
                    (blank_data\<lparr> d_event := Some ''task.start'', d_parentId := Some runJobId,
                                 d_data := Some uuid \<rparr>);
          success = Notice (''Backuping '' @ name @ '' is a success. ('' @ job_id job @ '')'')
                      (blank_data\<lparr> d_event := Some ''task.end'', d_taskId := Some taskId,
                                   d_status := Some ''success'' \<rparr>);
          failure = (\<lambda>e. LogError (''Backuping '' @ name @ '' has failed. ('' @ job_id job @ '')'')
                      (blank_data\<lparr> d_event := Some ''task.end'', d_taskId := Some taskId,
                                   d_status := Some ''failure'', d_result := Some e \<rparr>))
      in case await_vm env (job_settings job) scheduleId uuid of
           Fulfilled \<Rightarrow> ([start, success], (uuid, Fulfilled))
         | Rejected e \<Rightarrow> ([start, CancelVm uuid, failure e], (uuid, Rejected e))
         | Pending \<Rightarrow> ([start, CancelVm uuid, failure (timeout_error env)], (uuid, Pending)))"

text \<open>
  The executor: its result, its effects, and the state of every VM's worker when it
  returns. \<open>asyncMap\<close> (a helper that is not among the sources) calls the callback on
  every VM and waits for all the promises the callbacks return. The callbacks catch
  every rejection of their VM, so none of them rejects and \<open>asyncMap\<close> resolves once
  all have returned; their effects are listed VM by VM.
\<close>

definition executor ::
  "executor_env \<Rightarrow> BackupJob \<Rightarrow> string \<Rightarrow> string option \<Rightarrow> (string \<times> string) list
     \<Rightarrow> (error + unit) \<times> effect list \<times> (string \<times> promise) list" where
  "executor env job runJobId schedule vms =
     (case schedule of
        None \<Rightarrow> (Inl ''backup job cannot run without a schedule'', [], [])
      | Some scheduleId \<Rightarrow>
          if vms = [] then (Inl ''no VMs match this pattern'', [], [])
          else (Inr (),
                concat (map (\<lambda>vm. fst (backup_one env job runJobId scheduleId vm)) vms),
                map (\<lambda>vm. snd (backup_one env job runJobId scheduleId vm)) vms))"

text \<open>The entries of the log that end a VM's task, by status, and those that start one.\<close>

definition ends_with :: "string \<Rightarrow> effect \<Rightarrow> bool" where
  "ends_with st ef =
     (case ef of
        Notice m d \<Rightarrow> d_event d = Some ''task.end'' \<and> d_status d = Some st
      | LogError m d \<Rightarrow> d_event d = Some ''task.end'' \<and> d_status d = Some st
      | CancelVm u \<Rightarrow> False)"

definition starts_task :: "effect \<Rightarrow> bool" where
  "starts_task ef =
     (case ef of
        Notice m d \<Rightarrow> d_event d = Some ''task.start''
      | LogError m d \<Rightarrow> d_event d = Some ''task.start''
      | CancelVm u \<Rightarrow> False)"

definition cancelled :: "effect list \<Rightarrow> string list" where
  "cancelled efs = concat (map (\<lambda>ef. case ef of CancelVm u \<Rightarrow> [u] | _ \<Rightarrow> []) efs)"

text \<open>A sample run: the worker of \<open>vm2\<close> rejects, the worker of \<open>vm3\<close> is still pending
  after a second, the others resolve; and a job whose schedule sets \<open>vmTimeout\<close> to a
  second.\<close>

definition env_with_failure :: executor_env where
  "env_with_failure =
     \<lparr> worker = (\<lambda>uuid. if uuid = ''vm2'' then Some ''unhealthy VDI chain'' else None),
       timed_out = (\<lambda>uuid t. uuid = ''vm3'' \<and> t \<le> 1000),
       timeout_error = ''TimeoutError'',
       task_id = (\<lambda>uuid. ''task-'' @ uuid) \<rparr>"

definition timeout_job :: BackupJob where
  "timeout_job =
     \<lparr> job_id = ''job1'', job_name = ''nightly'', job_mode = ''full'',
       job_remotes = Some (Id ''r1''), job_srs = None,
       job_settings =
         [''s1'' \<mapsto> \<lparr> deleteFirst = None, exportRetention = Some 1, reportWhen = None,
                     snapshotRetention = Some 1, vmTimeout = Some 1000 \<rparr>] \<rparr>"

section \<open>Properties\<close>

lemma js_index_neg: "i < 0 \<Longrightarrow> js_index n i = n - nat (- i)"
  unfolding js_index_def by (simp add: max_def) linarith

lemma js_index_nat: "js_index n (int k) = min k n"
  by (simp add: js_index_def)

lemma js_index_zero: "js_index n 0 = 0"
  by (simp add: js_index_def)

lemma js_slice_prefix_neg:
  "i < 0 \<Longrightarrow> js_slice es 0 (Some i) = take (length es - nat (- i)) es"
  by (simp add: js_slice_def js_index_neg js_index_zero)

lemma indexOf_append_absent:
  "c \<notin> set xs \<Longrightarrow> indexOf (xs @ c # ys) c = int (length xs)"
  by (induction xs) (auto simp: Let_def)

lemma getOldEntries_length:
  "1 \<le> r \<Longrightarrow> length (getOldEntries r (Some es)) = length es - nat (r - 1)"
  by (auto simp: getOldEntries_def Let_def js_slice_prefix_neg)

lemma getOldEntries_prefix: "prefix (getOldEntries r (Some es)) es"
  by (auto simp: getOldEntries_def Let_def js_slice_prefix_neg take_is_prefix)

text \<open>
  C1 (as the code has it): for \<open>r \<ge> 1\<close> the result is the prefix of length
  \<open>len - (r - 1)\<close> (empty when fewer than \<open>r - 1\<close> entries exist); for \<open>r \<le> 0\<close>,
  in particular \<open>r = 0\<close>, every entry is returned; absent entries give the empty list.
\<close>

theorem getOldEntries_spec:
  "(1 \<le> r \<longrightarrow> getOldEntries r (Some es) = take (length es - nat (max 0 (r - 1))) es)
   \<and> (r \<le> 0 \<longrightarrow> getOldEntries r (Some es) = es)
   \<and> getOldEntries r (None :: 'a list option) = []"
  by (auto simp: getOldEntries_def Let_def js_slice_prefix_neg)

theorem getOldEntries_spec_witness:
  "(1 :: int) \<le> 3
   \<and> getOldEntries 3 (Some [10, 20, 30, 40, 50 :: int]) = [10, 20, 30]
   \<and> getOldEntries 3 (None :: int list option) = []
   \<and> (0 :: int) \<le> 0
   \<and> getOldEntries 0 (Some [10, 20 :: int]) = [10, 20]"
proof -
  have a: "getOldEntries 3 (Some [10, 20, 30, 40, 50 :: int]) = [10, 20, 30]
      \<and> getOldEntries 3 (None :: int list option) = []"
    using getOldEntries_spec [of 3 "[10, 20, 30, 40, 50 :: int]"] by simp
  have b: "getOldEntries 0 (Some [10, 20 :: int]) = [10, 20]"
    using getOldEntries_spec [of 0 "[10, 20 :: int]"] by blast
  show ?thesis using a b by simp
qed

text \<open>
  C1 as stated fails at retention 0: the claim promises the empty list, the code
  returns every entry.
\<close>

theorem getOldEntries_zero_counterexample:
  "getOldEntries 0 (Some [1, 2, 3 :: nat]) = [1, 2, 3]
   \<and> getOldEntries 0 (Some [1, 2, 3 :: nat]) \<noteq> []"
  by (simp add: getOldEntries_def)

text \<open>
  C6: \<open>getSetting\<close> returns the knob's value in the first listed scope key that defines
  it, and the default when no listed scope defines it; the defaults are
  \<open>false, 0, 0, failure, 0\<close>.
\<close>

theorem getSetting_first_defined:
  "getSetting settings name keys =
     (case find (defines_knob settings name) keys of
        None \<Rightarrow> defaultSettings name
      | Some k \<Rightarrow> the (knob_value settings name k))
   \<and> defaultSettings DeleteFirst = VBool False
   \<and> defaultSettings ExportRetention = VNum 0
   \<and> defaultSettings SnapshotRetention = VNum 0
   \<and> defaultSettings ReportWhenK = VReport Failure
   \<and> defaultSettings VmTimeout = VNum 0"
proof -
  have "getSetting settings name keys =
     (case find (defines_knob settings name) keys of
        None \<Rightarrow> defaultSettings name
      | Some k \<Rightarrow> the (knob_value settings name k))"
    by (induction keys)
       (auto simp: defines_knob_def knob_value_def split: option.splits)
  then show ?thesis by simp
qed

text \<open>
  C10: \<open>parseVmBackupId\<close> inverts the id synthesis of \<open>listVmBackupsNg\<close> whenever the
  remote id contains no slash.
\<close>

theorem parseVmBackupId_backup_id:
  assumes "CHR ''/'' \<notin> set rid"
  shows "parseVmBackupId (backup_id rid filename)
           = \<lparr> metadataFilename = filename, remoteId = rid \<rparr>"
proof -
  have i: "indexOf (rid @ CHR ''/'' # filename) CHR ''/'' = int (length rid)"
    using assms by (rule indexOf_append_absent)
  have a: "js_index n (int (length rid) + 1) = min (Suc (length rid)) n" for n
    using js_index_nat [of n "Suc (length rid)"] by (simp add: add.commute)
  show ?thesis
    by (simp add: parseVmBackupId_def backup_id_def i js_slice_def a js_index_nat js_index_zero)
qed

theorem parseVmBackupId_backup_id_witness:
  "CHR ''/'' \<notin> set ''remote-1''
   \<and> parseVmBackupId (backup_id ''remote-1'' ''xo-vm-backups/vm/20180401T000000Z.json'')
       = \<lparr> metadataFilename = ''xo-vm-backups/vm/20180401T000000Z.json'',
           remoteId = ''remote-1'' \<rparr>"
  using parseVmBackupId_backup_id [of "''remote-1''" "''xo-vm-backups/vm/20180401T000000Z.json''"]
  by simp


subsection \<open>Sorting and dictionaries\<close>

lemma set_js_insert: "set (js_insert cmp x xs) = insert x (set xs)"
  by (induction xs) auto

lemma set_js_sort: "set (js_sort cmp xs) = set xs"
  by (induction xs) (auto simp: set_js_insert)

lemma length_js_insert: "length (js_insert cmp x xs) = Suc (length xs)"
  by (induction xs) auto

lemma length_js_sort: "length (js_sort cmp xs) = length xs"
  by (induction xs) (auto simp: length_js_insert)

lemma distinct_js_insert: "distinct (js_insert cmp x xs) = (x \<notin> set xs \<and> distinct xs)"
  by (induction xs) (auto simp: set_js_insert)

lemma distinct_js_sort: "distinct (js_sort cmp xs) = distinct xs"
  by (induction xs) (auto simp: distinct_js_insert set_js_sort)

lemma sorted_js_insert_time:
  "sorted_wrt (\<lambda>a b. snapshot_time a \<le> snapshot_time b) xs \<Longrightarrow>
   sorted_wrt (\<lambda>a b. snapshot_time a \<le> snapshot_time b) (js_insert compareSnapshotTime x xs)"
  by (induction xs) (auto simp: set_js_insert compareSnapshotTime_def split: if_splits)

lemma sorted_js_sort_time:
  "sorted_wrt (\<lambda>a b. snapshot_time a \<le> snapshot_time b) (js_sort compareSnapshotTime xs)"
  by (induction xs) (auto simp: sorted_js_insert_time)

lemma dict_set_fresh: "k \<notin> fst ` set d \<Longrightarrow> dict_set d k v = d @ [(k, v)]"
  by (induction d) auto

lemma collect_replicated_keyed:
  assumes "distinct (map fst vms @ map fst all)"
    and "\<forall>(k, object) \<in> set all. obj_id object = k"
  shows "collect_replicated scheduleId srId vmUuid vms all
           = vms @ filter (\<lambda>(k, object). replicated_cond scheduleId srId vmUuid object) all"
  using assms
proof (induction all arbitrary: vms)
  case Nil
  then show ?case by simp
next
  case (Cons p rest)
  obtain key object where p: "p = (key, object)" by (cases p)
  have key: "obj_id object = key" using Cons.prems(2) p by simp
  have fresh: "key \<notin> fst ` set vms" using Cons.prems(1) p by auto
  show ?case
  proof (cases "replicated_cond scheduleId srId vmUuid object")
    case True
    have "distinct (map fst (vms @ [(key, object)]) @ map fst rest)"
      using Cons.prems(1) p by auto
    then have "collect_replicated scheduleId srId vmUuid (vms @ [(key, object)]) rest
        = (vms @ [(key, object)])
            @ filter (\<lambda>(k, object). replicated_cond scheduleId srId vmUuid object) rest"
      using Cons.IH [of "vms @ [(key, object)]"] Cons.prems(2) by simp
    then show ?thesis using True p key fresh by (simp add: dict_set_fresh)
  next
    case False
    have "distinct (map fst vms @ map fst rest)" using Cons.prems(1) p by auto
    then show ?thesis using False p Cons.IH [of vms] Cons.prems(2) by simp
  qed
qed

text \<open>
  C8 (as the code has it): over a cache keyed by \<open>$id\<close>, \<open>listReplicatedVms\<close> returns
  exactly the VMs that are neither snapshots nor templates, have \<open>start\<close> blocked, carry
  the schedule and SR tags, and whose \<open>xo:backup:vm\<close> tag is either the given VM uuid
  or absent; the result is sorted by \<open>snapshot_time\<close> ascending.
\<close>

theorem listReplicatedVms_spec:
  assumes "distinct (map fst all)"
    and "\<forall>(k, object) \<in> set all. obj_id object = k"
  shows "set (listReplicatedVms all scheduleId srId vmUuid)
           = {object \<in> snd ` set all.
                obj_type object = ''vm'' \<and> \<not> is_a_snapshot object \<and> \<not> is_a_template object \<and>
                ''start'' \<in> dom (blocked_operations object) \<and>
                other_config object ''xo:backup:schedule'' = Some scheduleId \<and>
                other_config object ''xo:backup:sr'' = Some srId \<and>
                (other_config object ''xo:backup:vm'' = vmUuid \<or>
                 other_config object ''xo:backup:vm'' = None)}
         \<and> sorted_wrt (\<lambda>a b. snapshot_time a \<le> snapshot_time b)
              (listReplicatedVms all scheduleId srId vmUuid)"
proof -
  have "collect_replicated scheduleId srId vmUuid [] all
          = filter (\<lambda>(k, object). replicated_cond scheduleId srId vmUuid object) all"
    using collect_replicated_keyed [of "[]" all scheduleId srId vmUuid] assms by simp
  then have "set (listReplicatedVms all scheduleId srId vmUuid)
          = {object \<in> snd ` set all. replicated_cond scheduleId srId vmUuid object}"
    by (force simp: listReplicatedVms_def set_js_sort)
  then show ?thesis
    by (auto simp: replicated_cond_def Let_def listReplicatedVms_def sorted_js_sort_time)
qed

theorem listReplicatedVms_spec_witness:
  "distinct (map fst replica_cache)
   \<and> map (obj_id \<circ> snd) replica_cache = map fst replica_cache
   \<and> replica_legacy \<in> set (listReplicatedVms replica_cache ''s1'' ''sr1'' (Some ''vm1''))
   \<and> sorted_wrt (\<lambda>a b. snapshot_time a \<le> snapshot_time b)
        (listReplicatedVms replica_cache ''s1'' ''sr1'' (Some ''vm1''))"
proof -
  have d: "distinct (map fst replica_cache)" by (simp add: replica_cache_def)
  have m: "map (obj_id \<circ> snd) replica_cache = map fst replica_cache"
    by (simp add: replica_cache_def replica_tagged_def replica_legacy_def replica_other_def)
  have k: "\<forall>(k, object) \<in> set replica_cache. obj_id object = k"
    by (simp add: replica_cache_def replica_tagged_def replica_legacy_def replica_other_def)
  have i: "replica_legacy \<in> snd ` set replica_cache" by (simp add: replica_cache_def)
  have p: "obj_type replica_legacy = ''vm''" "\<not> is_a_snapshot replica_legacy"
    "\<not> is_a_template replica_legacy" "''start'' \<in> dom (blocked_operations replica_legacy)"
    "other_config replica_legacy ''xo:backup:schedule'' = Some ''s1''"
    "other_config replica_legacy ''xo:backup:sr'' = Some ''sr1''"
    "other_config replica_legacy ''xo:backup:vm'' = None"
    by (simp_all add: replica_legacy_def)
  show ?thesis
    using listReplicatedVms_spec [OF d k, of "''s1''" "''sr1''" "Some ''vm1''"] d m i p
    by simp
qed

text \<open>
  C8 as stated fails on a replica made before the \<open>xo:backup:vm\<close> tag existed: it
  carries no such tag, so its \<open>other_config\<close> does not map the key to the VM uuid,
  and it is returned all the same.
\<close>

theorem listReplicatedVms_legacy_counterexample:
  "listReplicatedVms [(''r1'', replica_legacy)] ''s1'' ''sr1'' (Some ''vm1'') = [replica_legacy]
   \<and> other_config replica_legacy ''xo:backup:vm'' \<noteq> Some ''vm1''"
  by (simp add: listReplicatedVms_def replicated_cond_def replica_legacy_def)

subsection \<open>Log consolidation\<close>

lemma dict_get_None_iff: "dict_get d k = None \<longleftrightarrow> k \<notin> fst ` set d"
  by (induction d k rule: dict_get.induct) (auto split: if_splits)

lemma dict_get_Some_mem: "dict_get d k = Some v \<Longrightarrow> (k, v) \<in> set d"
  by (induction d k rule: dict_get.induct) (auto split: if_splits)

lemma dict_get_dict_set: "dict_get (dict_set d k v) k' = (if k' = k then Some v else dict_get d k')"
  by (induction d) auto

lemma dict_get_dict_delete:
  "dict_get (dict_delete d k) k' = (if k' = k then None else dict_get d k')"
  by (induction d) (auto simp: dict_delete_def)

lemma keys_dict_set: "fst ` set (dict_set d k v) = insert k (fst ` set d)"
  by (induction d k v rule: dict_set.induct) (auto split: if_splits)

lemma keys_dict_delete: "fst ` set (dict_delete d k) = fst ` set d - {k}"
  by (auto simp: dict_delete_def)

lemma keys_consolidate:
  "fst ` set (consolidate runId logs (ident, e)) \<subseteq> insert ident (fst ` set logs)"
proof -
  have present: "dict_get logs k = Some v \<Longrightarrow> k \<in> fst ` set logs" for k v
    using dict_get_None_iff [of logs k] by auto
  show ?thesis
    unfolding consolidate_def Let_def
    by (auto simp: keys_dict_set keys_dict_delete split: option.splits dest: present)
qed

lemma keys_consolidate_all:
  "fst ` set (foldl (consolidate runId) logs evs) \<subseteq> fst ` set logs \<union> fst ` set evs"
proof (induction evs arbitrary: logs)
  case Nil
  then show ?case by simp
next
  case (Cons ev evs)
  obtain ident e where ev: "ev = (ident, e)" by (cases ev)
  have "fst ` set (foldl (consolidate runId) (consolidate runId logs ev) evs)
          \<subseteq> fst ` set (consolidate runId logs ev) \<union> fst ` set evs"
    by (rule Cons.IH)
  also have "\<dots> \<subseteq> insert ident (fst ` set logs) \<union> fst ` set evs"
    using keys_consolidate [of runId logs ident e] ev by auto
  finally show ?case using ev by auto
qed

lemma groupBy_records:
  "(\<Union>g \<in> set (groupBy f acc xs). set (snd g)) = (\<Union>g \<in> set acc. set (snd g)) \<union> set xs"
proof (induction xs arbitrary: acc)
  case Nil
  then show ?case by simp
next
  case (Cons x xs)
  have fresh: "dict_get d k = None \<Longrightarrow>
      (\<Union>g \<in> set (dict_set d k v). set (snd g)) = set v \<union> (\<Union>g \<in> set d. set (snd g))"
    for d :: "(string \<times> 'a list) list" and k v
    by (induction d k v rule: dict_set.induct) (auto split: if_splits)
  have known: "dict_get d k = Some ys \<Longrightarrow> set ys \<subseteq> set v \<Longrightarrow>
      (\<Union>g \<in> set (dict_set d k v). set (snd g)) = set v \<union> (\<Union>g \<in> set d. set (snd g))"
    for d :: "(string \<times> 'a list) list" and k v ys
    by (induction d k v rule: dict_set.induct) (auto split: if_splits)
  have step: "(\<Union>g \<in> set (dict_set acc (f x)
                  (case dict_get acc (f x) of None \<Rightarrow> [x] | Some ys \<Rightarrow> ys @ [x])). set (snd g))
        = insert x (\<Union>g \<in> set acc. set (snd g))"
  proof (cases "dict_get acc (f x)")
    case None
    then show ?thesis using fresh [of acc "f x" "[x]"] by simp
  next
    case (Some ys)
    have "(f x, ys) \<in> set acc" using Some by (rule dict_get_Some_mem)
    then have "set ys \<subseteq> (\<Union>g \<in> set acc. set (snd g))" by force
    moreover have "(\<Union>g \<in> set (dict_set acc (f x) (ys @ [x])). set (snd g))
        = set (ys @ [x]) \<union> (\<Union>g \<in> set acc. set (snd g))"
      using known [of acc "f x" ys "ys @ [x]"] Some by auto
    ultimately show ?thesis using Some by auto
  qed
  show ?case by (simp add: Cons.IH step)
qed


lemma consolidate_all_records:
  "(\<Union>g \<in> set (getBackupNgLogs runId rawLogs). set (snd g))
     = snd ` set (foldl (consolidate runId) [] rawLogs)"
  by (simp add: getBackupNgLogs_def groupBy_records)

text \<open>
  C9: when a \<open>task.end\<close> entry matches a record of the dictionary, then either its time
  is the record's start and its message is \<open>merge\<close> or \<open>tranfer\<close>, and the record's key
  is absent from the final dictionary whatever entries follow; or the record gets the
  entry's status, task id and result, \<open>end\<close> is the entry's time and \<open>duration\<close> is
  \<open>end - start\<close>. The records of the output are the values of the final dictionary.
\<close>

theorem getBackupNgLogs_task_end:
  assumes "distinct (map fst (pre @ (ident, e) # post))"
    and "d_event (log_data e) = Some ''task.end''"
    and "dict_get (foldl (consolidate runId) [] pre) (js_key (d_taskId (log_data e))) = Some task"
  shows "(log_time e = c_start task \<and> (log_message e = ''merge'' \<or> log_message e = ''tranfer'') \<longrightarrow>
            js_key (d_taskId (log_data e))
              \<notin> fst ` set (foldl (consolidate runId) [] (pre @ (ident, e) # post)))
       \<and> (\<not> (log_time e = c_start task \<and> (log_message e = ''merge'' \<or> log_message e = ''tranfer'')) \<longrightarrow>
            dict_get (foldl (consolidate runId) [] (pre @ [(ident, e)])) (js_key (d_taskId (log_data e)))
              = Some (task\<lparr> c_status := d_status (log_data e), c_taskId := d_taskId (log_data e),
                           c_result := d_result (log_data e), c_end := Some (log_time e),
                           c_duration := Some (log_time e - c_start task) \<rparr>))
       \<and> (\<Union>g \<in> set (getBackupNgLogs runId (pre @ (ident, e) # post)). set (snd g))
            = snd ` set (foldl (consolidate runId) [] (pre @ (ident, e) # post))"
proof -
  define tid where "tid = js_key (d_taskId (log_data e))"
  define logs where "logs = foldl (consolidate runId) [] pre"
  have task: "dict_get logs tid = Some task" using assms(3) by (simp add: tid_def logs_def)
  have "tid \<in> fst ` set logs" using task dict_get_None_iff [of logs tid] by auto
  then have "tid \<in> fst ` set pre"
    using keys_consolidate_all [of runId "[]" pre] by (auto simp: logs_def)
  then have later: "tid \<notin> fst ` set post" using assms(1) by auto
  have ev: "d_event (log_data e) \<noteq> Some ''job.start''" "d_event (log_data e) \<noteq> Some ''job.end''"
    "d_event (log_data e) \<noteq> Some ''task.start''"
    using assms(2) by simp_all
  have removed: "tid \<notin> fst ` set (foldl (consolidate runId) [] (pre @ (ident, e) # post))"
    if "log_time e = c_start task \<and> (log_message e = ''merge'' \<or> log_message e = ''tranfer'')"
  proof -
    have "consolidate runId logs (ident, e) = dict_delete logs tid"
      using that task assms(2) ev by (auto simp: consolidate_def Let_def tid_def)
    then have "tid \<notin> fst ` set (consolidate runId logs (ident, e))"
      by (simp add: keys_dict_delete)
    then have "tid \<notin> fst ` set (foldl (consolidate runId) (consolidate runId logs (ident, e)) post)"
      using keys_consolidate_all [of runId "consolidate runId logs (ident, e)" post] later by auto
    then show ?thesis by (simp add: logs_def)
  qed
  have updated: "dict_get (foldl (consolidate runId) [] (pre @ [(ident, e)])) tid
      = Some (task\<lparr> c_status := d_status (log_data e), c_taskId := d_taskId (log_data e),
                   c_result := d_result (log_data e), c_end := Some (log_time e),
                   c_duration := Some (log_time e - c_start task) \<rparr>)"
    if "\<not> (log_time e = c_start task \<and> (log_message e = ''merge'' \<or> log_message e = ''tranfer''))"
  proof -
    have "consolidate runId logs (ident, e)
        = dict_set logs tid
            (task\<lparr> c_status := d_status (log_data e), c_taskId := d_taskId (log_data e),
                   c_result := d_result (log_data e), c_end := Some (log_time e),
                   c_duration := Some (log_time e - c_start task) \<rparr>)"
      using that task assms(2) ev by (auto simp: consolidate_def Let_def tid_def)
    then show ?thesis by (simp add: logs_def dict_get_dict_set)
  qed
  show ?thesis
    using removed updated consolidate_all_records [of runId "pre @ (ident, e) # post"]
    unfolding tid_def by blast
qed


theorem getBackupNgLogs_task_end_witness:
  "''t2'' \<notin> fst ` set (foldl (consolidate None) []
       [(''j1'', sample_job_start), (''t1'', sample_vm_start), (''t2'', sample_merge_start),
        (''e2'', sample_merge_end), (''e1'', sample_vm_end)])
   \<and> map_option c_duration (dict_get (foldl (consolidate None) []
       [(''j1'', sample_job_start), (''t1'', sample_vm_start), (''t2'', sample_merge_start),
        (''e2'', sample_merge_end), (''e1'', sample_vm_end)]) ''t1'') = Some (Some 40)"
proof -
  let ?pre = "[(''j1'', sample_job_start), (''t1'', sample_vm_start), (''t2'', sample_merge_start)]"
  let ?merge = "(spread_data (log_data sample_merge_start) 120)\<lparr> c_message := Some ''merge'' \<rparr>"
  let ?vm = "(spread_data (log_data sample_vm_start) 110)\<lparr> c_message := Some ''Starting backup of vm'' \<rparr>"
  have pre: "foldl (consolidate None) [] ?pre
      = [(''j1'', (spread_data (log_data sample_job_start) 100)\<lparr> c_id := Some ''j1'' \<rparr>),
         (''t1'', ?vm), (''t2'', ?merge)]"
    by (simp add: consolidate_def Let_def sample_job_start_def sample_vm_start_def
        sample_merge_start_def blank_data_def js_key_def)
  have pre2: "foldl (consolidate None) [] (?pre @ [(''e2'', sample_merge_end)])
      = [(''j1'', (spread_data (log_data sample_job_start) 100)\<lparr> c_id := Some ''j1'' \<rparr>),
         (''t1'', ?vm)]"
    unfolding foldl_append pre
    by (simp add: consolidate_def Let_def sample_merge_end_def blank_data_def js_key_def
        dict_delete_def spread_data_def)
  have d1: "distinct (map fst (?pre @ (''e2'', sample_merge_end) # [(''e1'', sample_vm_end)]))"
    by simp
  have e1: "d_event (log_data sample_merge_end) = Some ''task.end''"
    "js_key (d_taskId (log_data sample_merge_end)) = ''t2''"
    "log_time sample_merge_end = 120" "log_message sample_merge_end = ''merge''"
    by (simp_all add: sample_merge_end_def blank_data_def js_key_def)
  have t1: "dict_get (foldl (consolidate None) [] ?pre)
      (js_key (d_taskId (log_data sample_merge_end))) = Some ?merge"
    unfolding pre e1 by simp
  have a: "''t2'' \<notin> fst ` set (foldl (consolidate None) []
      (?pre @ (''e2'', sample_merge_end) # [(''e1'', sample_vm_end)]))"
    using getBackupNgLogs_task_end [OF d1 e1(1) t1] e1 by (simp add: spread_data_def)
  have d2: "distinct (map fst ((?pre @ [(''e2'', sample_merge_end)]) @ (''e1'', sample_vm_end) # []))"
    by simp
  have e2: "d_event (log_data sample_vm_end) = Some ''task.end''"
    "js_key (d_taskId (log_data sample_vm_end)) = ''t1''"
    "log_time sample_vm_end = 150"
    by (simp_all add: sample_vm_end_def blank_data_def js_key_def)
  have t2: "dict_get (foldl (consolidate None) [] (?pre @ [(''e2'', sample_merge_end)]))
      (js_key (d_taskId (log_data sample_vm_end))) = Some ?vm"
    unfolding pre2 e2 by simp
  have b: "map_option c_duration (dict_get (foldl (consolidate None) []
      ((?pre @ [(''e2'', sample_merge_end)]) @ [(''e1'', sample_vm_end)])) ''t1'') = Some (Some 40)"
    using getBackupNgLogs_task_end [OF d2 e2(1) t2] e2 by (simp add: spread_data_def)
  show ?thesis using a b by simp
qed

subsection \<open>Atomic writer\<close>

text \<open>
  C2 (as the code has it): the temporary path is \<open>dirname(path) + '/.' + basename(path)\<close>
  and every handler operation of \<open>writeStream\<close> names it; a rename is attempted only as
  the sixth operation, after the stream was opened and piped and the finish, the
  checksum and the task were awaited and all resolved, and a run that resolves has
  exactly these six operations; when one of the three rejects, no rename is attempted,
  the last operation is the unlink of the temporary path, and, if that unlink resolves,
  the rejection is propagated unchanged; a rejection of the input promise or of
  \<open>createOutputStream\<close> is propagated at once, with no unlink.
\<close>

theorem writeStream_atomic:
  "tmp_path dirname basename path = dirname path @ ''/.'' @ basename path
   \<and> set (fst (writeStream dirname basename oc path checksum))
       \<subseteq> {CreateOutputStream (tmp_path dirname basename path) checksum, Pipe, AwaitFinish,
           AwaitChecksumWritten, AwaitTask,
           Rename (tmp_path dirname basename path) path checksum,
           Unlink (tmp_path dirname basename path) checksum}
   \<and> ((\<exists>op \<in> set (fst (writeStream dirname basename oc path checksum)). is_rename op) \<longrightarrow>
        error_before_rename oc = None
        \<and> take 6 (fst (writeStream dirname basename oc path checksum))
            = [CreateOutputStream (tmp_path dirname basename path) checksum, Pipe, AwaitFinish,
               AwaitChecksumWritten, AwaitTask,
               Rename (tmp_path dirname basename path) path checksum])
   \<and> (snd (writeStream dirname basename oc path checksum) = Inr () \<longrightarrow>
        fst (writeStream dirname basename oc path checksum)
            = [CreateOutputStream (tmp_path dirname basename path) checksum, Pipe, AwaitFinish,
               AwaitChecksumWritten, AwaitTask,
               Rename (tmp_path dirname basename path) path checksum]
        \<and> rename_res oc = None)
   \<and> (input_res oc = None \<and> create_res oc = None \<and> error_before_rename oc = Some e \<longrightarrow>
        (\<forall>op \<in> set (fst (writeStream dirname basename oc path checksum)). \<not> is_rename op)
        \<and> last (fst (writeStream dirname basename oc path checksum))
            = Unlink (tmp_path dirname basename path) checksum
        \<and> (unlink_res oc = None \<longrightarrow>
             snd (writeStream dirname basename oc path checksum) = Inl e))
   \<and> (input_res oc = Some e \<longrightarrow>
        writeStream dirname basename oc path checksum = ([], Inl e))
   \<and> (input_res oc = None \<and> create_res oc = Some e \<longrightarrow>
        writeStream dirname basename oc path checksum
          = ([CreateOutputStream (tmp_path dirname basename path) checksum], Inl e))"
  unfolding writeStream_def write_body_def error_before_rename_def is_rename_def Let_def
  by (auto simp: tmp_path_def split: option.splits)

theorem writeStream_atomic_witness:
  "fst (writeStream sample_dirname sample_basename all_resolve ''xo-vm-backups/vm/a.xva'' True)
     = [CreateOutputStream (tmp_path sample_dirname sample_basename ''xo-vm-backups/vm/a.xva'') True,
        Pipe, AwaitFinish, AwaitChecksumWritten, AwaitTask,
        Rename (tmp_path sample_dirname sample_basename ''xo-vm-backups/vm/a.xva'')
          ''xo-vm-backups/vm/a.xva'' True]
   \<and> last (fst (writeStream sample_dirname sample_basename
        (all_resolve\<lparr> task_res := Some ''export failed'' \<rparr>) ''xo-vm-backups/vm/a.xva'' True))
     = Unlink (tmp_path sample_dirname sample_basename ''xo-vm-backups/vm/a.xva'') True
   \<and> snd (writeStream sample_dirname sample_basename
        (all_resolve\<lparr> task_res := Some ''export failed'' \<rparr>) ''xo-vm-backups/vm/a.xva'' True)
     = Inl ''export failed''
   \<and> tmp_path sample_dirname sample_basename ''xo-vm-backups/vm/a.xva''
     = ''xo-vm-backups/vm/.a.xva''"
proof -
  let ?p = "''xo-vm-backups/vm/a.xva''"
  let ?bad = "all_resolve\<lparr> task_res := Some ''export failed'' \<rparr>"
  have ok: "snd (writeStream sample_dirname sample_basename all_resolve ?p True) = Inr ()"
    by (simp add: writeStream_def write_body_def all_resolve_def Let_def)
  have failing: "input_res ?bad = None \<and> create_res ?bad = None
      \<and> error_before_rename ?bad = Some ''export failed''"
    by (simp add: all_resolve_def error_before_rename_def)
  have unlinked: "unlink_res ?bad = None"
    by (simp add: all_resolve_def)
  have t: "tmp_path sample_dirname sample_basename ?p = ''xo-vm-backups/vm/.a.xva''"
    by (simp add: tmp_path_def sample_dirname_def sample_basename_def)
  note good = writeStream_atomic [of sample_dirname sample_basename ?p all_resolve True "''e''"]
  note bad = writeStream_atomic [of sample_dirname sample_basename ?p ?bad True "''export failed''"]
  note good4 = conjunct1 [OF conjunct2 [OF conjunct2 [OF conjunct2 [OF good]]]]
  note bad5 = conjunct1 [OF conjunct2 [OF conjunct2 [OF conjunct2 [OF conjunct2 [OF bad]]]]]
  note a = conjunct1 [OF mp [OF good4 ok]]
  note b = conjunct2 [OF mp [OF bad5 failing]]
  note b1 = conjunct1 [OF b]
  note b2 = mp [OF conjunct2 [OF b] unlinked]
  show ?thesis
    by (rule conjI [OF a conjI [OF b1 conjI [OF b2 t]]])
qed

text \<open>
  C2 as stated fails in two runs: when \<open>createOutputStream\<close> rejects, the error comes
  before the rename and nothing is unlinked; when the finish is rejected and the unlink
  rejects too, the error propagated is the unlink's, not the original one.
\<close>

theorem writeStream_unlink_counterexample:
  "writeStream sample_dirname sample_basename
       (all_resolve\<lparr> create_res := Some ''EACCES'' \<rparr>) ''xo-vm-backups/vm/a.xva'' True
     = ([CreateOutputStream ''xo-vm-backups/vm/.a.xva'' True], Inl ''EACCES'')
   \<and> Unlink ''xo-vm-backups/vm/.a.xva'' True
       \<notin> set [CreateOutputStream ''xo-vm-backups/vm/.a.xva'' True]
   \<and> snd (writeStream sample_dirname sample_basename
       (all_resolve\<lparr> finish_res := Some ''EIO'', unlink_res := Some ''ENOENT'' \<rparr>)
       ''xo-vm-backups/vm/a.xva'' True) = Inl ''ENOENT''
   \<and> ''ENOENT'' \<noteq> ''EIO''"
  by (simp add: writeStream_def write_body_def all_resolve_def tmp_path_def Let_def
      sample_dirname_def sample_basename_def)

subsection \<open>Remote export tasks\<close>

lemma attempt_rejected: "run_result run = Inl e \<Longrightarrow> attempt outcome op effect run = run"
  by (simp add: attempt_def)

lemma run_steps_rejected: "run_result run = Inl e \<Longrightarrow> run_steps steps run = run"
  by (induction steps run rule: run_steps.induct) (simp_all add: attempt_rejected)

lemma run_steps_ops_prefix:
  "prefix (run_ops (run_steps steps run)) (run_ops run @ map (fst \<circ> snd) steps)"
proof (induction steps run rule: run_steps.induct)
  case (1 run)
  then show ?case by simp
next
  case (2 outcome op effect steps run)
  show ?case
  proof (cases "run_result run")
    case (Inl e)
    then show ?thesis by (simp add: run_steps_rejected attempt_rejected)
  next
    case (Inr u)
    show ?thesis
    proof (cases outcome)
      case None
      then show ?thesis using 2 Inr by (simp add: attempt_def)
    next
      case (Some e)
      then have "run_steps ((outcome, op, effect) # steps) run
          = run\<lparr> run_ops := run_ops run @ [op], run_result := Inl e \<rparr>"
        using Inr by (simp add: attempt_def run_steps_rejected)
      then show ?thesis by simp
    qed
  qed
qed

lemma run_steps_resolved:
  "run_result (run_steps steps run) = Inr () \<Longrightarrow>
     run_result run = Inr () \<and> list_all (\<lambda>st. fst st = None) steps
     \<and> run_ops (run_steps steps run) = run_ops run @ map (fst \<circ> snd) steps
     \<and> run_sidecars (run_steps steps run)
         = foldl (\<lambda>s st. snd (snd st) s) (run_sidecars run) steps"
proof (induction steps run rule: run_steps.induct)
  case (1 run)
  then show ?case by simp
next
  case (2 outcome op effect steps run)
  have r: "run_result (attempt outcome op effect run) = Inr ()"
    using 2 by simp
  then have "run_result run = Inr () \<and> outcome = None"
    by (auto simp: attempt_def split: sum.splits option.splits)
  then show ?case using 2 by (simp add: attempt_def)
qed

lemma run_steps_all_resolve:
  "run_result run = Inr () \<Longrightarrow> list_all (\<lambda>st. fst st = None) steps \<Longrightarrow>
     run_result (run_steps steps run) = Inr ()"
  by (induction steps run rule: run_steps.induct) (auto simp: attempt_def)


subsection \<open>Counting what a rotation leaves\<close>

lemma length_filter_js_insert:
  "length (filter P (js_insert cmp x xs)) = length (filter P (x # xs))"
  by (induction xs) auto

lemma length_filter_js_sort: "length (filter P (js_sort cmp xs)) = length (filter P xs)"
  by (induction xs) (auto simp: length_filter_js_insert)

lemma set_getOldEntries: "set (getOldEntries r (Some es)) \<subseteq> set es"
  using getOldEntries_prefix [of r es] by (auto dest: set_mono_prefix)

lemma distinct_getOldEntries:
  assumes "distinct es"
  shows "distinct (getOldEntries r (Some es))"
proof -
  obtain zs where "es = getOldEntries r (Some es) @ zs"
    using getOldEntries_prefix [of r es] by (auto simp: prefix_def)
  then have "distinct (getOldEntries r (Some es) @ zs)" using assms by simp
  then show ?thesis by simp
qed

lemma getOldEntries_all: "r \<le> 1 \<Longrightarrow> getOldEntries r (Some es) = es"
  by (simp add: getOldEntries_def)

lemma count_after_removal:
  assumes "distinct (map key xs)" and "distinct old" and "set old \<subseteq> set (filter P xs)"
  shows "length (filter P (filter (\<lambda>x. key x \<notin> set (map key old)) xs))
           = length (filter P xs) - length old"
proof -
  have inj: "inj_on key (set xs)" and dxs: "distinct xs"
    using assms(1) by (auto simp: distinct_map)
  have sub: "set old \<subseteq> set xs" using assms(3) by auto
  have mem: "key x \<in> set (map key old) \<longleftrightarrow> x \<in> set old" if "x \<in> set xs" for x
    using that sub inj by (auto dest: inj_onD)
  have "filter P (filter (\<lambda>x. key x \<notin> set (map key old)) xs)
          = filter (\<lambda>x. x \<notin> set old) (filter P xs)"
    using mem by (induction xs) auto
  moreover have "distinct (filter (\<lambda>x. x \<notin> set old) (filter P xs))"
    using dxs by simp
  moreover have "set (filter (\<lambda>x. x \<notin> set old) (filter P xs)) = set (filter P xs) - set old"
    by auto
  ultimately have "length (filter P (filter (\<lambda>x. key x \<notin> set (map key old)) xs))
          = card (set (filter P xs) - set old)"
    by (metis distinct_card)
  also have "\<dots> = card (set (filter P xs)) - card (set old)"
    using assms(3) by (simp add: card_Diff_subset)
  also have "\<dots> = length (filter P xs) - length old"
    using distinct_card [of "filter P xs"] distinct_card [of old] dxs assms(2) by simp
  finally show ?thesis .
qed

text \<open>
  The arithmetic of a rotation: from \<open>n\<close> entries, the selection for retention
  \<open>r \<ge> 1\<close> removes \<open>n - (r - 1)\<close>; with the new entry, \<open>min r (n + 1)\<close> remain.
\<close>

lemma rotation_count:
  assumes "1 \<le> r"
  shows "int (n - (n - nat (r - 1)) + 1) = min r (int n + 1)"
  using assms by (auto simp: min_def)

subsection \<open>Sidecars after a remote's export task\<close>

lemma put_sidecar_new:
  "m_filename new \<notin> set (map m_filename sidecars) \<Longrightarrow> put_sidecar new sidecars = sidecars @ [new]"
proof -
  assume fresh: "m_filename new \<notin> set (map m_filename sidecars)"
  have "m_filename m \<noteq> m_filename new" if "m \<in> set sidecars" for m
    using that fresh by (metis image_eqI set_map)
  then have "filter (\<lambda>m. m_filename m \<noteq> m_filename new) sidecars = sidecars"
    by (simp add: filter_id_conv)
  then show ?thesis by (simp add: put_sidecar_def)
qed

lemma remove_sidecars_append_new:
  "m_filename new \<notin> set (map m_filename old) \<Longrightarrow>
     remove_sidecars old (sidecars @ [new]) = remove_sidecars old sidecars @ [new]"
  by (simp add: remove_sidecars_def)

lemma remote_export_sidecars:
  assumes "run_result (remote_export oc df tr P k new sidecars) = Inr ()"
    and "m_filename new \<notin> set (map m_filename sidecars)"
  shows "run_sidecars (remote_export oc df tr P k new sidecars)
           = remove_sidecars (getOldEntries k (Some (listVmBackups P sidecars))) sidecars @ [new]"
proof -
  let ?old = "getOldEntries k (Some (listVmBackups P sidecars))"
  have "set ?old \<subseteq> set sidecars"
    using set_getOldEntries [of k "listVmBackups P sidecars"]
    by (auto simp: listVmBackups_def set_js_sort)
  then have old: "m_filename new \<notin> set (map m_filename ?old)"
    using assms(2) by auto
  have rest: "m_filename new \<notin> set (map m_filename (remove_sidecars ?old sidecars))"
    using assms(2) by (auto simp: remove_sidecars_def)
  have "run_sidecars (remote_export oc df tr P k new sidecars)
      = foldl (\<lambda>s st. snd (snd st) s) sidecars (remote_steps oc df tr P k new sidecars)"
    using run_steps_resolved [OF assms(1) [unfolded remote_export_def]]
    by (simp add: remote_export_def)
  also have "\<dots> = remove_sidecars ?old sidecars @ [new]"
    using put_sidecar_new [OF assms(2)] put_sidecar_new [OF rest]
      remove_sidecars_append_new [OF old, of sidecars]
    by (simp add: remote_steps_def Let_def)
  finally show ?thesis .
qed

lemma remote_export_count:
  assumes "run_result (remote_export oc df tr P k new sidecars) = Inr ()"
    and "1 \<le> k"
    and "distinct (map m_filename sidecars)"
    and "m_filename new \<notin> set (map m_filename sidecars)"
    and "P new"
  shows "int (length (filter P (run_sidecars (remote_export oc df tr P k new sidecars))))
           = min k (int (length (filter P sidecars)) + 1)"
proof -
  let ?listing = "listVmBackups P sidecars"
  let ?old = "getOldEntries k (Some ?listing)"
  have d: "distinct sidecars" using assms(3) by (auto simp: distinct_map)
  then have dl: "distinct ?listing" by (simp add: listVmBackups_def distinct_js_sort)
  have sl: "set ?listing = set (filter P sidecars)" by (simp add: listVmBackups_def set_js_sort)
  have ll: "length ?listing = length (filter P sidecars)"
    by (simp add: listVmBackups_def length_js_sort)
  have "length (filter P (remove_sidecars ?old sidecars)) = length (filter P sidecars) - length ?old"
    unfolding remove_sidecars_def
    using count_after_removal [of m_filename sidecars ?old P] assms(3)
      distinct_getOldEntries [OF dl, of k] set_getOldEntries [of k ?listing] sl
    by simp
  moreover have "length ?old = length (filter P sidecars) - nat (k - 1)"
    using getOldEntries_length [OF assms(2), of ?listing] ll by simp
  ultimately have "length (filter P (remove_sidecars ?old sidecars @ [new]))
      = length (filter P sidecars)
          - (length (filter P sidecars) - nat (k - 1)) + 1"
    using assms(5) by simp
  then show ?thesis
    using remote_export_sidecars [OF assms(1) assms(4)] rotation_count [OF assms(2)]
    by simp
qed

lemma export_remotes_other:
  "rid \<notin> set rids \<Longrightarrow> export_remotes task rids rs rid = rs rid"
  by (induction rids arbitrary: rs) auto

lemma export_remotes_at:
  "rid \<in> set rids \<Longrightarrow> distinct rids \<Longrightarrow>
     export_remotes task rids rs rid = run_sidecars (task rid (rs rid))"
  by (induction rids arbitrary: rs) (auto simp: export_remotes_other)

subsection \<open>A run of the worker that resolves\<close>

lemma export_phase_resolved:
  assumes "export_phase orc job k s sid vmUuid basename now snapshot rs = (Inr (), ds, rs')"
  shows "(job_mode job = ''full''
          \<and> ds = (if s = 0 then [Always [snapshot]] else [])
          \<and> rs' = export_remotes
                (\<lambda>rid. export_full_remote (o_remote orc rid) (job_settings job) k sid rid
                   \<lparr> m_filename = getVmBackupDir vmUuid @ ''/'' @ basename @ ''.json'',
                     m_jobId = job_id job, m_mode = ''full'', m_scheduleId = sid,
                     m_timestamp = now \<rparr>)
                (unboxIds (job_remotes job)) rs)
       \<or> (job_mode job = ''delta''
          \<and> ds = (if s = 0 then [OnFailure [snapshot]] else [])
          \<and> rs' = export_remotes
                (\<lambda>rid. export_delta_remote (o_remote orc rid) (job_settings job) k sid rid
                   (o_vdis_empty orc)
                   \<lparr> m_filename = getVmBackupDir vmUuid @ ''/'' @ basename @ ''.json'',
                     m_jobId = job_id job, m_mode = ''delta'', m_scheduleId = sid,
                     m_timestamp = now \<rparr>)
                (unboxIds (job_remotes job)) rs)"
  using assms unfolding export_phase_def Let_def
  by (auto split: if_splits option.splits)

lemma snapshot_phase_resolved:
  assumes "snapshot_phase orc job k s sid vmUuid basename now snapshots snapshot rs = (Inr (), ds, rs')"
  shows "(k = 0 \<and> rs' = rs
          \<and> ds = [Always (getOldEntries s (Some (filter
                (\<lambda>x. other_config x ''xo:backup:schedule'' = Some sid) snapshots)))])
       \<or> (k \<noteq> 0 \<and> (\<exists>ds0. export_phase orc job k s sid vmUuid basename now snapshot rs
                            = (Inr (), ds0, rs')
          \<and> ds = ds0 @ [Always (getOldEntries s (Some (filter
                (\<lambda>x. other_config x ''xo:backup:schedule'' = Some sid) snapshots)))]))"
  using assms unfolding snapshot_phase_def Let_def
  by (auto split: if_splits option.splits prod.splits)

lemma backupVm_resolved:
  assumes "backupVm orc vmUuid vm job sid fresh basename now w = (Inr (), w')"
  shows "\<exists>ds. snapshot_phase orc job
            (as_num (getSetting (job_settings job) ExportRetention [sid]))
            (as_num (getSetting (job_settings job) SnapshotRetention [sid]))
            sid vmUuid basename now
            (js_sort compareSnapshotTime
               (filter (\<lambda>x. other_config x ''xo:backup:job'' = Some (job_id job)) (w_snapshots w)))
            (tag_snapshot (job_id job) sid vmUuid fresh) (w_remotes w)
          = (Inr (), ds, w_remotes w')
        \<and> w_snapshots w' = run_deferred False ds
              (w_snapshots w @ [tag_snapshot (job_id job) sid vmUuid fresh])
        \<and> \<not> (as_num (getSetting (job_settings job) ExportRetention [sid]) = 0
             \<and> as_num (getSetting (job_settings job) SnapshotRetention [sid]) = 0)"
  using assms unfolding backupVm_def Let_def
  by (auto split: if_splits option.splits prod.splits simp del: getSetting.simps)

lemma remote_export_resolves:
  "run_result (remote_export remote_ok df tr P k new sidecars) = Inr ()"
  unfolding remote_export_def
  by (rule run_steps_all_resolve) (simp_all add: remote_steps_def Let_def remote_ok_def)


lemmas worker_defs =
  backupVm_def snapshot_phase_def export_phase_def export_full_remote_def
  export_delta_remote_def remote_export_def remote_steps_def attempt_def Let_def
  getOldEntries_def listVmBackups_def unboxIds_def getVmBackupDir_def tag_snapshot_def
  sample_job_def sample_vm_def sample_snapshot_def answers_ok_def remote_ok_def
  sample_sidecar_def compareTimestamp_def compareSnapshotTime_def
  remove_sidecars_def put_sidecar_def deleteVms_def js_slice_def js_index_def



subsection \<open>Snapshots after a run of the worker\<close>

lemma deleteVms_append_new:
  "obj_id new \<notin> set (map obj_id old) \<Longrightarrow> deleteVms old (snaps @ [new]) = deleteVms old snaps @ [new]"
  by (simp add: deleteVms_def)

lemma deleteVms_only_new:
  assumes "obj_id new \<notin> set (map obj_id snaps)"
  shows "deleteVms [new] (snaps @ [new]) = snaps"
proof -
  have "obj_id x \<noteq> obj_id new" if "x \<in> set snaps" for x
    using that assms by (metis image_eqI set_map)
  then have "filter (\<lambda>x. obj_id x \<noteq> obj_id new) snaps = snaps"
    by (simp add: filter_id_conv)
  then show ?thesis by (simp add: deleteVms_def)
qed

text \<open>The snapshots a resolved run leaves, by the retention and the mode.\<close>

lemma backupVm_resolved_snapshots:
  assumes "backupVm orc vmUuid vm job sid fresh basename now w = (Inr (), w')"
  defines "s \<equiv> as_num (getSetting (job_settings job) SnapshotRetention [sid])"
  defines "tagged \<equiv> tag_snapshot (job_id job) sid vmUuid fresh"
  defines "old \<equiv> getOldEntries s (Some (filter (\<lambda>x. other_config x ''xo:backup:schedule'' = Some sid)
      (js_sort compareSnapshotTime
         (filter (\<lambda>x. other_config x ''xo:backup:job'' = Some (job_id job)) (w_snapshots w)))))"
  shows "(s \<noteq> 0 \<and> w_snapshots w' = deleteVms old (w_snapshots w @ [tagged]))
       \<or> (s = 0 \<and> job_mode job = ''full''
          \<and> w_snapshots w' = deleteVms old (deleteVms [tagged] (w_snapshots w @ [tagged])))
       \<or> (s = 0 \<and> job_mode job = ''delta''
          \<and> w_snapshots w' = deleteVms old (w_snapshots w @ [tagged]))"
proof -
  let ?k = "as_num (getSetting (job_settings job) ExportRetention [sid])"
  let ?snapshots = "js_sort compareSnapshotTime
      (filter (\<lambda>x. other_config x ''xo:backup:job'' = Some (job_id job)) (w_snapshots w))"
  obtain ds where phase: "snapshot_phase orc job ?k s sid vmUuid basename now ?snapshots tagged
        (w_remotes w) = (Inr (), ds, w_remotes w')"
    and snaps: "w_snapshots w' = run_deferred False ds (w_snapshots w @ [tagged])"
    and both: "\<not> (?k = 0 \<and> s = 0)"
    using backupVm_resolved [OF assms(1)] unfolding s_def tagged_def by blast
  consider (only) "?k = 0" "ds = [Always old]"
    | (export) ds0 where "?k \<noteq> 0" "ds = ds0 @ [Always old]"
        "export_phase orc job ?k s sid vmUuid basename now tagged (w_remotes w)
           = (Inr (), ds0, w_remotes w')"
    using snapshot_phase_resolved [OF phase] unfolding old_def by blast
  then show ?thesis
  proof cases
    case only
    then show ?thesis using snaps both by simp
  next
    case export
    then consider (full) "job_mode job = ''full''" "ds0 = (if s = 0 then [Always [tagged]] else [])"
      | (delta) "job_mode job = ''delta''" "ds0 = (if s = 0 then [OnFailure [tagged]] else [])"
      using export_phase_resolved [OF export(3)] by blast
    then show ?thesis
      using snaps export(2) by cases (auto split: if_splits)
  qed
qed





subsection \<open>The order of a remote's export task\<close>

text \<open>
  The task of a remote, step by step: the outcome for every combination of answers.
\<close>

lemma remote_export_table:
  "remote_export oc df tr P k new sidecars =
     (let oldBackups = getOldEntries k (Some (listVmBackups P sidecars));
          del = DeleteOld (map m_filename oldBackups);
          out = OutputFile (m_filename new);
          start = [GetHandler, ListBackups] @ (if df then [del] else []);
          moved = start @ (if tr then [Transfer] else []);
          listed = (if df then remove_sidecars oldBackups sidecars else sidecars)
      in case r_handler oc of
           Some e \<Rightarrow> \<lparr> run_ops = [GetHandler], run_result = Inl e, run_sidecars = sidecars \<rparr>
         | None \<Rightarrow>
       (case r_list oc of
           Some e \<Rightarrow> \<lparr> run_ops = [GetHandler, ListBackups], run_result = Inl e,
                        run_sidecars = sidecars \<rparr>
         | None \<Rightarrow>
       (case (if df then r_delete oc else None) of
           Some e \<Rightarrow> \<lparr> run_ops = start, run_result = Inl e, run_sidecars = sidecars \<rparr>
         | None \<Rightarrow>
       (case (if tr then r_transfer oc else None) of
           Some e \<Rightarrow> \<lparr> run_ops = moved, run_result = Inl e, run_sidecars = listed \<rparr>
         | None \<Rightarrow>
       (case r_output oc of
           Some e \<Rightarrow> \<lparr> run_ops = moved @ [out], run_result = Inl e, run_sidecars = listed \<rparr>
         | None \<Rightarrow>
       (if df then \<lparr> run_ops = moved @ [out], run_result = Inr (),
                      run_sidecars = put_sidecar new listed \<rparr>
        else (case r_delete oc of
                Some e \<Rightarrow> \<lparr> run_ops = moved @ [out, del], run_result = Inl e,
                             run_sidecars = put_sidecar new listed \<rparr>
              | None \<Rightarrow> \<lparr> run_ops = moved @ [out, del], run_result = Inr (),
                             run_sidecars = remove_sidecars oldBackups (put_sidecar new listed) \<rparr>)))))))"
  by (cases df; cases tr)
     (simp_all add: remote_export_def remote_steps_def attempt_def Let_def split: option.splits)



lemma remote_export_behaviour:
  fixes oc df tr P k new sidecars
  defines "oldBackups \<equiv> getOldEntries k (Some (listVmBackups P sidecars))"
  defines "old \<equiv> map m_filename oldBackups"
  defines "run \<equiv> remote_export oc df tr P k new sidecars"
  defines "expected \<equiv>
      (if df
       then [GetHandler, ListBackups, DeleteOld old] @ (if tr then [Transfer] else [])
              @ [OutputFile (m_filename new)]
       else [GetHandler, ListBackups] @ (if tr then [Transfer] else [])
              @ [OutputFile (m_filename new), DeleteOld old])"
  defines "resolved \<equiv> (if isl (run_result run) then butlast (run_ops run) else run_ops run)"
  shows "prefix (run_ops run) expected
       \<and> (run_result run = Inr () \<longrightarrow> run_ops run = expected)
       \<and> (\<forall>op \<in> set resolved. op_answer oc op = None)
       \<and> (\<forall>e. run_result run = Inl e \<longrightarrow>
             run_ops run \<noteq> [] \<and> op_answer oc (last (run_ops run)) = Some e)
       \<and> run_sidecars run =
           (if df
            then (if OutputFile (m_filename new) \<in> set resolved then put_sidecar new else id)
                   ((if DeleteOld old \<in> set resolved then remove_sidecars oldBackups else id)
                      sidecars)
            else (if DeleteOld old \<in> set resolved then remove_sidecars oldBackups else id)
                   ((if OutputFile (m_filename new) \<in> set resolved then put_sidecar new else id)
                      sidecars))
       \<and> (\<forall>e. df \<and> tr \<and> r_handler oc = None \<and> r_list oc = None
               \<and> r_delete oc = None \<and> r_transfer oc = Some e \<longrightarrow>
             run_result run = Inl e \<and> run_sidecars run = remove_sidecars oldBackups sidecars)
       \<and> (\<forall>e. \<not> df \<and> tr \<and> r_handler oc = None \<and> r_list oc = None
               \<and> r_transfer oc = Some e \<longrightarrow>
             run_result run = Inl e \<and> run_sidecars run = sidecars)"
proof (cases "r_handler oc")
  case (Some e)
  then show ?thesis
    unfolding resolved_def expected_def run_def remote_export_table Let_def
    unfolding old_def [symmetric] oldBackups_def [symmetric]
    by (cases df; cases tr) simp_all
next
  case handler: None
  show ?thesis
  proof (cases "r_list oc")
    case (Some e)
    then show ?thesis
      using handler
      unfolding resolved_def expected_def run_def remote_export_table Let_def
      unfolding old_def [symmetric] oldBackups_def [symmetric]
      by (cases df; cases tr) simp_all
  next
    case None
    then show ?thesis
      using handler
      unfolding resolved_def expected_def run_def remote_export_table Let_def
      unfolding old_def [symmetric] oldBackups_def [symmetric]
      by (cases "r_delete oc"; cases "r_transfer oc"; cases "r_output oc"; cases df; cases tr)
         simp_all
  qed
qed



subsection \<open>Job executor\<close>

lemma backup_one_effects:
  "length (filter starts_task (fst (backup_one env job runJobId sid vm))) = 1
   \<and> length (filter (ends_with ''failure'') (fst (backup_one env job runJobId sid vm)))
       = (if await_vm env (job_settings job) sid (snd vm) \<noteq> Fulfilled then 1 else 0)
   \<and> length (filter (ends_with ''success'') (fst (backup_one env job runJobId sid vm)))
       = (if await_vm env (job_settings job) sid (snd vm) = Fulfilled then 1 else 0)
   \<and> cancelled (fst (backup_one env job runJobId sid vm))
       = (if await_vm env (job_settings job) sid (snd vm) \<noteq> Fulfilled then [snd vm] else [])
   \<and> snd (backup_one env job runJobId sid vm)
       = (snd vm, await_vm env (job_settings job) sid (snd vm))"
  by (cases "await_vm env (job_settings job) sid (snd vm)")
     (simp_all add: backup_one_def Let_def starts_task_def ends_with_def cancelled_def
        blank_data_def)

lemma all_effects:
  "length (filter starts_task
       (concat (map (\<lambda>vm. fst (backup_one env job runJobId sid vm)) vms))) = length vms
   \<and> length (filter (ends_with ''failure'')
       (concat (map (\<lambda>vm. fst (backup_one env job runJobId sid vm)) vms)))
       = length (filter (\<lambda>vm. await_vm env (job_settings job) sid (snd vm) \<noteq> Fulfilled) vms)
   \<and> length (filter (ends_with ''success'')
       (concat (map (\<lambda>vm. fst (backup_one env job runJobId sid vm)) vms)))
       = length (filter (\<lambda>vm. await_vm env (job_settings job) sid (snd vm) = Fulfilled) vms)
   \<and> cancelled (concat (map (\<lambda>vm. fst (backup_one env job runJobId sid vm)) vms))
       = map snd (filter (\<lambda>vm. await_vm env (job_settings job) sid (snd vm) \<noteq> Fulfilled) vms)
   \<and> map (\<lambda>vm. snd (backup_one env job runJobId sid vm)) vms
       = map (\<lambda>vm. (snd vm, await_vm env (job_settings job) sid (snd vm))) vms"
proof (induction vms)
  case Nil
  then show ?case by (simp add: cancelled_def)
next
  case (Cons vm vms)
  have c: "cancelled (xs @ ys) = cancelled xs @ cancelled ys" for xs ys
    by (simp add: cancelled_def)
  show ?case
    using Cons.IH backup_one_effects [of env job runJobId sid vm]
    by (simp add: c)
qed



end
